theory Spec2Isabelle
  imports Main "HOL-Library.Char_ord" "HOL-Library.List_Lexorder" "HOL-Library.Multiset"
begin

section \<open>The store of backend/server.js\<close>

text \<open>
  The server keeps one JSON document (db.json) with five collections. Every handler reads
  the whole document, transforms it in memory and writes it back before it answers, so a
  handler is modelled as a function from the document (and the request) to a response and
  the document that is on disk afterwards. A handler that answers with an error status
  returns before \<^verbatim>\<open>writeDb\<close>, so the document is unchanged then. Handlers are taken one at
  a time: the interleaving of two requests between \<^verbatim>\<open>readDb\<close> and \<^verbatim>\<open>writeDb\<close> is not
  part of this model.

  Identifiers are JavaScript strings; they are modelled as \<^typ>\<open>string\<close>, compared
  character by character, as JavaScript compares code units. Request fields that the
  handlers test with \<^verbatim>\<open>!x\<close> are optional strings: \<open>None\<close> stands for an absent (or
  \<^verbatim>\<open>null\<close>) field, and the empty string is falsy as in JavaScript.
\<close>

record user =
  user_id :: string
  username :: string
  password :: string
  avatar :: string
  avatarImage :: "string option"
  bio :: string

record comment =
  comment_id :: string
  comment_authorId :: string
  comment_author :: string
  comment_authorAvatar :: string
  comment_authorAvatarImage :: "string option"
  comment_text :: string
  comment_time :: string

record post =
  post_id :: string
  authorId :: string
  author :: string
  authorAvatar :: string
  authorAvatarImage :: "string option"
  post_text :: string
  image :: "string option"
  createdAt :: nat
  likes :: "string list"
  comments :: "comment list"

record friends_entry =
  friends_userId :: string
  friends :: "string list"

record fr_entry =
  fr_userId :: string
  sent :: "string list"
  received :: "string list"

datatype payload = TextPayload string | VoicePayload string

record message =
  message_id :: string
  senderId :: string
  payload :: payload
  message_time :: string
  read :: bool

text \<open>
  \<^verbatim>\<open>db.messages\<close> is a JavaScript object. Registration stores the empty object \<^verbatim>\<open>{}\<close>
  under the new user's id; the chat handlers store an array of messages under a chat id.
\<close>

datatype messages_value = EmptyObject | Thread "message list"

record db =
  users :: "user list"
  posts :: "post list"
  db_friends :: "friends_entry list"
  friendRequests :: "fr_entry list"
  messages :: "string \<rightharpoonup> messages_value"

datatype error =
  NoUserId | AuthUserNotFound
  | MissingFields | UsernameTaken | InvalidCredentials | NoImage
  | EmptyPost | PostNotFound | EmptyComment
  | CannotAddSelf | TargetNotFound
  | EmptyMessage | NoAudio
  | TypeError

definition initialData :: db where
  "initialData = \<lparr>users = [], posts = [], db_friends = [], friendRequests = [], messages = Map.empty\<rparr>"

text \<open>\<^verbatim>\<open>!x\<close> on an optional string.\<close>

fun falsy :: "string option \<Rightarrow> bool" where
  "falsy None = True"
| "falsy (Some s) = (s = [])"

subsection \<open>authMiddleware\<close>

definition authMiddleware :: "db \<Rightarrow> string option \<Rightarrow> error + user" where
  "authMiddleware d hdr =
     (if falsy hdr then Inl NoUserId
      else case find (\<lambda>u. user_id u = the hdr) (users d) of
             None \<Rightarrow> Inl AuthUserNotFound
           | Some u \<Rightarrow> Inr u)"

subsection \<open>Friends and friend requests\<close>

text \<open>
  \<^verbatim>\<open>getFR\<close> and \<^verbatim>\<open>getFriends\<close> return a reference to the first entry with the given
  \<^verbatim>\<open>userId\<close>, after pushing a fresh one when there is none. The reference is therefore
  determined by the key: the model returns the store after the possible push, and a write
  through the reference is an update of the first entry with that key. Two references with
  the same key are the same object, which is what happens in the source when
  \<^verbatim>\<open>fromUserId\<close> is the caller's own id.
\<close>

fun update_first :: "('a \<Rightarrow> bool) \<Rightarrow> ('a \<Rightarrow> 'a) \<Rightarrow> 'a list \<Rightarrow> 'a list" where
  "update_first P f [] = []"
| "update_first P f (x # xs) = (if P x then f x # xs else x # update_first P f xs)"

definition getFR :: "db \<Rightarrow> string \<Rightarrow> db" where
  "getFR d userId =
     (case find (\<lambda>fr. fr_userId fr = userId) (friendRequests d) of
        Some entry \<Rightarrow> d
      | None \<Rightarrow> d\<lparr>friendRequests :=
                   friendRequests d @ [\<lparr>fr_userId = userId, sent = [], received = []\<rparr>]\<rparr>)"

definition getFriends :: "db \<Rightarrow> string \<Rightarrow> db" where
  "getFriends d userId =
     (case find (\<lambda>f. friends_userId f = userId) (db_friends d) of
        Some entry \<Rightarrow> d
      | None \<Rightarrow> d\<lparr>db_friends := db_friends d @ [\<lparr>friends_userId = userId, friends = []\<rparr>]\<rparr>)"

definition set_sent :: "string \<Rightarrow> string list \<Rightarrow> db \<Rightarrow> db" where
  "set_sent userId v d =
     d\<lparr>friendRequests :=
         update_first (\<lambda>fr. fr_userId fr = userId) (\<lambda>e. e\<lparr>sent := v\<rparr>) (friendRequests d)\<rparr>"

definition set_received :: "string \<Rightarrow> string list \<Rightarrow> db \<Rightarrow> db" where
  "set_received userId v d =
     d\<lparr>friendRequests :=
         update_first (\<lambda>fr. fr_userId fr = userId) (\<lambda>e. e\<lparr>received := v\<rparr>) (friendRequests d)\<rparr>"

definition set_friends :: "string \<Rightarrow> string list \<Rightarrow> db \<Rightarrow> db" where
  "set_friends userId v d =
     d\<lparr>db_friends :=
         update_first (\<lambda>e. friends_userId e = userId) (\<lambda>e. e\<lparr>friends := v\<rparr>) (db_friends d)\<rparr>"

text \<open>
  What GET /api/friends and GET /api/friend-requests read: the first entry of the user, or
  empty lists when there is none.
\<close>

definition friends_of :: "db \<Rightarrow> string \<Rightarrow> string list" where
  "friends_of d userId =
     (case find (\<lambda>f. friends_userId f = userId) (db_friends d) of
        Some entry \<Rightarrow> friends entry | None \<Rightarrow> [])"

definition sent_of :: "db \<Rightarrow> string \<Rightarrow> string list" where
  "sent_of d userId =
     (case find (\<lambda>fr. fr_userId fr = userId) (friendRequests d) of
        Some entry \<Rightarrow> sent entry | None \<Rightarrow> [])"

definition received_of :: "db \<Rightarrow> string \<Rightarrow> string list" where
  "received_of d userId =
     (case find (\<lambda>fr. fr_userId fr = userId) (friendRequests d) of
        Some entry \<Rightarrow> received entry | None \<Rightarrow> [])"

definition listRequests :: "db \<Rightarrow> string option \<Rightarrow> error + (string list \<times> string list)" where
  "listRequests d hdr =
     (case authMiddleware d hdr of
        Inl e \<Rightarrow> Inl e
      | Inr u \<Rightarrow> Inr (sent_of d (user_id u), received_of d (user_id u)))"

definition sendRequest :: "db \<Rightarrow> string option \<Rightarrow> string \<Rightarrow> (error + unit) \<times> db" where
  "sendRequest d hdr toUserId =
     (case authMiddleware d hdr of
        Inl e \<Rightarrow> (Inl e, d)
      | Inr u \<Rightarrow>
          if toUserId = user_id u then (Inl CannotAddSelf, d)
          else case find (\<lambda>x. user_id x = toUserId) (users d) of
            None \<Rightarrow> (Inl TargetNotFound, d)
          | Some target \<Rightarrow>
              let d1 = getFR d (user_id u);
                  d2 = getFR d1 toUserId;
                  d3 = (if toUserId \<in> set (sent_of d2 (user_id u)) then d2
                        else set_sent (user_id u) (sent_of d2 (user_id u) @ [toUserId]) d2);
                  d4 = (if user_id u \<in> set (received_of d3 toUserId) then d3
                        else set_received toUserId (received_of d3 toUserId @ [user_id u]) d3)
              in (Inr (), d4))"

definition acceptRequest :: "db \<Rightarrow> string option \<Rightarrow> string \<Rightarrow> (error + unit) \<times> db" where
  "acceptRequest d hdr fromUserId =
     (case authMiddleware d hdr of
        Inl e \<Rightarrow> (Inl e, d)
      | Inr u \<Rightarrow>
          let d1 = getFR d (user_id u);
              d2 = getFR d1 fromUserId;
              d3 = set_received (user_id u)
                     (filter (\<lambda>i. i \<noteq> fromUserId) (received_of d2 (user_id u))) d2;
              d4 = set_sent fromUserId
                     (filter (\<lambda>i. i \<noteq> user_id u) (sent_of d3 fromUserId)) d3;
              d5 = getFriends d4 (user_id u);
              d6 = getFriends d5 fromUserId;
              d7 = (if fromUserId \<in> set (friends_of d6 (user_id u)) then d6
                    else set_friends (user_id u) (friends_of d6 (user_id u) @ [fromUserId]) d6);
              d8 = (if user_id u \<in> set (friends_of d7 fromUserId) then d7
                    else set_friends fromUserId (friends_of d7 fromUserId @ [user_id u]) d7)
          in (Inr (), d8))"

definition declineRequest :: "db \<Rightarrow> string option \<Rightarrow> string \<Rightarrow> (error + unit) \<times> db" where
  "declineRequest d hdr fromUserId =
     (case authMiddleware d hdr of
        Inl e \<Rightarrow> (Inl e, d)
      | Inr u \<Rightarrow>
          let d1 = getFR d (user_id u);
              d2 = getFR d1 fromUserId;
              d3 = set_received (user_id u)
                     (filter (\<lambda>i. i \<noteq> fromUserId) (received_of d2 (user_id u))) d2;
              d4 = set_sent fromUserId
                     (filter (\<lambda>i. i \<noteq> user_id u) (sent_of d3 fromUserId)) d3
          in (Inr (), d4))"

text \<open>The two invariants of the relationship graph.\<close>

definition symmetric :: "db \<Rightarrow> bool" where
  "symmetric d \<longleftrightarrow> (\<forall>A B. B \<in> set (friends_of d A) \<longleftrightarrow> A \<in> set (friends_of d B))"

definition mirror_consistent :: "db \<Rightarrow> bool" where
  "mirror_consistent d \<longleftrightarrow> (\<forall>A B. B \<in> set (sent_of d A) \<longleftrightarrow> A \<in> set (received_of d B))"

text \<open>The users that have an entry in each of the two collections.\<close>

definition FR_keys :: "db \<Rightarrow> string set" where
  "FR_keys d = fr_userId ` set (friendRequests d)"

definition Friends_keys :: "db \<Rightarrow> string set" where
  "Friends_keys d = friends_userId ` set (db_friends d)"

text \<open>
  GET /api/friends resolves every stored friend id to its user and drops the ids that
  resolve to nothing.
\<close>

record user_view =
  view_id :: string
  view_username :: string
  view_avatar :: string
  view_avatarImage :: "string option"

definition public_view :: "user \<Rightarrow> user_view" where
  "public_view u =
     \<lparr>view_id = user_id u, view_username = username u, view_avatar = avatar u,
      view_avatarImage = avatarImage u\<rparr>"

definition listFriends :: "db \<Rightarrow> string option \<Rightarrow> error + user_view list" where
  "listFriends d hdr =
     (case authMiddleware d hdr of
        Inl e \<Rightarrow> Inl e
      | Inr u \<Rightarrow>
          Inr (map public_view
                 (List.map_filter (\<lambda>fid. find (\<lambda>x. user_id x = fid) (users d))
                    (friends_of d (user_id u)))))"

subsection \<open>Array.prototype.sort and join\<close>

text \<open>
  \<^verbatim>\<open>sort\<close> is stable and orders by the comparator: \<open>a\<close> stays before \<open>b\<close> unless
  \<open>cmp a b > 0\<close>. It is modelled as a stable insertion sort. Without a comparator,
  strings are compared by their code units.
\<close>

fun insert_by :: "('a \<Rightarrow> 'a \<Rightarrow> int) \<Rightarrow> 'a \<Rightarrow> 'a list \<Rightarrow> 'a list" where
  "insert_by cmp x [] = [x]"
| "insert_by cmp x (y # ys) = (if cmp x y \<le> 0 then x # y # ys else y # insert_by cmp x ys)"

definition sort_by :: "('a \<Rightarrow> 'a \<Rightarrow> int) \<Rightarrow> 'a list \<Rightarrow> 'a list" where
  "sort_by cmp xs = foldr (insert_by cmp) xs []"

definition default_compare :: "string \<Rightarrow> string \<Rightarrow> int" where
  "default_compare x y = (if x < y then - 1 else if y < x then 1 else 0)"

fun join :: "string \<Rightarrow> string list \<Rightarrow> string" where
  "join sep [] = []"
| "join sep [x] = x"
| "join sep (x # y # ys) = x @ sep @ join sep (y # ys)"

subsection \<open>Number.prototype.toString on a timestamp\<close>

definition digit :: "nat \<Rightarrow> char" where
  "digit n = char_of (48 + n)"

function toString :: "nat \<Rightarrow> string" where
  "toString n = (if n < 10 then [digit n] else toString (n div 10) @ [digit (n mod 10)])"
  by pat_completeness auto
termination
  by (relation "measure id") auto

declare toString.simps [simp del]

subsection \<open>Registration, login and avatar\<close>

text \<open>
  \<^verbatim>\<open>Date.now()\<close> is an input of the handler (\<open>now\<close>). \<^verbatim>\<open>toUpperCase\<close> is modelled on
  the ASCII letters only.
\<close>

definition toUpperCase :: "string \<Rightarrow> string" where
  "toUpperCase s =
     map (\<lambda>c. if CHR ''a'' \<le> c \<and> c \<le> CHR ''z'' then char_of (of_char c - (32::nat)) else c) s"

record registered_view = user_view +
  view_bio :: string

definition register ::
  "db \<Rightarrow> string option \<Rightarrow> string option \<Rightarrow> nat \<Rightarrow> (error + registered_view) \<times> db" where
  "register d uname pw now =
     (if falsy uname \<or> falsy pw then (Inl MissingFields, d)
      else if \<exists>u \<in> set (users d). username u = the uname then (Inl UsernameTaken, d)
      else
        let u = \<lparr>user_id = toString now, username = the uname, password = the pw,
                 avatar = toUpperCase (take 1 (the uname)), avatarImage = None, bio = []\<rparr>;
            d' = d\<lparr>users := users d @ [u],
                   db_friends := db_friends d @ [\<lparr>friends_userId = user_id u, friends = []\<rparr>],
                   friendRequests := friendRequests d @
                      [\<lparr>fr_userId = user_id u, sent = [], received = []\<rparr>],
                   messages := (messages d)(user_id u \<mapsto> EmptyObject)\<rparr>
        in (Inr \<lparr>view_id = user_id u, view_username = username u, view_avatar = avatar u,
                  view_avatarImage = avatarImage u, view_bio = bio u\<rparr>, d'))"

definition login :: "db \<Rightarrow> string option \<Rightarrow> string option \<Rightarrow> error + user_view" where
  "login d uname pw =
     (case find (\<lambda>u. Some (username u) = uname \<and> Some (password u) = pw) (users d) of
        None \<Rightarrow> Inl InvalidCredentials
      | Some u \<Rightarrow> Inr (public_view u))"

definition updateAvatar :: "db \<Rightarrow> string option \<Rightarrow> string option \<Rightarrow> (error + string) \<times> db" where
  "updateAvatar d hdr img =
     (case authMiddleware d hdr of
        Inl e \<Rightarrow> (Inl e, d)
      | Inr u \<Rightarrow>
          if falsy img then (Inl NoImage, d)
          else (Inr (the img),
                d\<lparr>users := update_first (\<lambda>x. user_id x = user_id u)
                                (\<lambda>x. x\<lparr>avatarImage := img\<rparr>) (users d)\<rparr>))"

subsection \<open>Posts\<close>

definition listPosts :: "db \<Rightarrow> string option \<Rightarrow> error + post list" where
  "listPosts d hdr =
     (case authMiddleware d hdr of
        Inl e \<Rightarrow> Inl e
      | Inr u \<Rightarrow> Inr (sort_by (\<lambda>a b. int (createdAt b) - int (createdAt a)) (posts d)))"

text \<open>
  POST /api/posts reads the clock twice: \<open>now\<close> for the id and \<open>now'\<close> for
  \<^verbatim>\<open>createdAt\<close>.
\<close>

definition createPost ::
  "db \<Rightarrow> string option \<Rightarrow> string option \<Rightarrow> string option \<Rightarrow> nat \<Rightarrow> nat \<Rightarrow> (error + post) \<times> db" where
  "createPost d hdr txt img now now' =
     (case authMiddleware d hdr of
        Inl e \<Rightarrow> (Inl e, d)
      | Inr u \<Rightarrow>
          if falsy txt \<and> falsy img then (Inl EmptyPost, d)
          else
            let p = \<lparr>post_id = toString now, authorId = user_id u, author = username u,
                     authorAvatar = avatar u, authorAvatarImage = avatarImage u,
                     post_text = (if falsy txt then [] else the txt),
                     image = (if falsy img then None else img),
                     createdAt = now', likes = [], comments = []\<rparr>
            in (Inr p, d\<lparr>posts := posts d @ [p]\<rparr>))"

fun indexOf :: "'a \<Rightarrow> 'a list \<Rightarrow> nat option" where
  "indexOf x [] = None"
| "indexOf x (y # ys) = (if y = x then Some 0 else map_option Suc (indexOf x ys))"

definition splice1 :: "nat \<Rightarrow> 'a list \<Rightarrow> 'a list" where
  "splice1 idx xs = take idx xs @ drop (Suc idx) xs"

definition toggle :: "string \<Rightarrow> string list \<Rightarrow> string list" where
  "toggle uid ls = (case indexOf uid ls of None \<Rightarrow> ls @ [uid] | Some idx \<Rightarrow> splice1 idx ls)"

text \<open>The likes of the post that a post id resolves to: the first post with that id.\<close>

definition likes_of :: "db \<Rightarrow> string \<Rightarrow> string list option" where
  "likes_of d postId = map_option likes (find (\<lambda>p. post_id p = postId) (posts d))"

definition toggleLike :: "db \<Rightarrow> string option \<Rightarrow> string \<Rightarrow> (error + string list) \<times> db" where
  "toggleLike d hdr postId =
     (case authMiddleware d hdr of
        Inl e \<Rightarrow> (Inl e, d)
      | Inr u \<Rightarrow>
          case find (\<lambda>p. post_id p = postId) (posts d) of
            None \<Rightarrow> (Inl PostNotFound, d)
          | Some p \<Rightarrow>
              let ls = toggle (user_id u) (likes p)
              in (Inr ls,
                  d\<lparr>posts := update_first (\<lambda>p. post_id p = postId)
                                  (\<lambda>p. p\<lparr>likes := ls\<rparr>) (posts d)\<rparr>))"

definition addComment ::
  "db \<Rightarrow> string option \<Rightarrow> string \<Rightarrow> string option \<Rightarrow> nat \<Rightarrow> string \<Rightarrow> (error + comment) \<times> db" where
  "addComment d hdr postId txt now isoTime =
     (case authMiddleware d hdr of
        Inl e \<Rightarrow> (Inl e, d)
      | Inr u \<Rightarrow>
          if falsy txt then (Inl EmptyComment, d)
          else case find (\<lambda>p. post_id p = postId) (posts d) of
            None \<Rightarrow> (Inl PostNotFound, d)
          | Some p \<Rightarrow>
              let c = \<lparr>comment_id = toString now, comment_authorId = user_id u,
                       comment_author = username u, comment_authorAvatar = avatar u,
                       comment_authorAvatarImage = avatarImage u, comment_text = the txt,
                       comment_time = isoTime\<rparr>
              in (Inr c,
                  d\<lparr>posts := update_first (\<lambda>p. post_id p = postId)
                                  (\<lambda>p. p\<lparr>comments := comments p @ [c]\<rparr>) (posts d)\<rparr>))"

subsection \<open>Chats\<close>

definition threadKey :: "string \<Rightarrow> string \<Rightarrow> string" where
  "threadKey userA userB = join ''_'' (sort_by default_compare [userA, userB])"

text \<open>\<^verbatim>\<open>db.messages[chatId] || []\<close>: the stored value, or an empty array.\<close>

definition chatMessages :: "db \<Rightarrow> string \<Rightarrow> messages_value" where
  "chatMessages d chatId = (case messages d chatId of None \<Rightarrow> Thread [] | Some v \<Rightarrow> v)"

definition listMessages :: "db \<Rightarrow> string option \<Rightarrow> string \<Rightarrow> error + messages_value" where
  "listMessages d hdr friendId =
     (case authMiddleware d hdr of
        Inl e \<Rightarrow> Inl e
      | Inr u \<Rightarrow> Inr (chatMessages d (threadKey (user_id u) friendId)))"

text \<open>
  \<^verbatim>\<open>length\<close> of the empty object is \<^verbatim>\<open>undefined\<close>, which is not greater than 0, so
  the last message is \<^verbatim>\<open>null\<close> then.
\<close>

definition lastMessage :: "messages_value \<Rightarrow> message option" where
  "lastMessage v = (case v of EmptyObject \<Rightarrow> None
                    | Thread ms \<Rightarrow> if length ms > 0 then Some (ms ! (length ms - 1)) else None)"

definition listChats :: "db \<Rightarrow> string option \<Rightarrow> error + (user_view \<times> message option) list" where
  "listChats d hdr =
     (case authMiddleware d hdr of
        Inl e \<Rightarrow> Inl e
      | Inr u \<Rightarrow>
          Inr (List.map_filter
                 (\<lambda>friendId.
                    case find (\<lambda>x. user_id x = friendId) (users d) of
                      None \<Rightarrow> None
                    | Some friend \<Rightarrow>
                        Some (public_view friend,
                              lastMessage (chatMessages d (threadKey (user_id u) friendId))))
                 (friends_of d (user_id u))))"

text \<open>
  Both sending handlers create the array when nothing truthy is stored under the chat id and
  then call \<^verbatim>\<open>push\<close> on what is stored. The empty object has no \<^verbatim>\<open>push\<close>: the handler
  throws and nothing is written.
\<close>

definition pushMessage :: "db \<Rightarrow> string \<Rightarrow> message \<Rightarrow> (error + message) \<times> db" where
  "pushMessage d chatId msg =
     (let d1 = (case messages d chatId of
                  None \<Rightarrow> d\<lparr>messages := (messages d)(chatId \<mapsto> Thread [])\<rparr>
                | Some v \<Rightarrow> d)
      in case messages d1 chatId of
           Some (Thread ms) \<Rightarrow> (Inr msg, d1\<lparr>messages := (messages d1)(chatId \<mapsto> Thread (ms @ [msg]))\<rparr>)
         | _ \<Rightarrow> (Inl TypeError, d))"

definition sendTextMessage ::
  "db \<Rightarrow> string option \<Rightarrow> string \<Rightarrow> string option \<Rightarrow> nat \<Rightarrow> string \<Rightarrow> (error + message) \<times> db" where
  "sendTextMessage d hdr friendId txt now isoTime =
     (case authMiddleware d hdr of
        Inl e \<Rightarrow> (Inl e, d)
      | Inr u \<Rightarrow>
          if falsy txt then (Inl EmptyMessage, d)
          else pushMessage d (threadKey (user_id u) friendId)
                 \<lparr>message_id = toString now, senderId = user_id u,
                  payload = TextPayload (the txt), message_time = isoTime, read = False\<rparr>)"

definition sendVoiceMessage ::
  "db \<Rightarrow> string option \<Rightarrow> string \<Rightarrow> string option \<Rightarrow> nat \<Rightarrow> string \<Rightarrow> (error + message) \<times> db" where
  "sendVoiceMessage d hdr friendId audioData now isoTime =
     (case authMiddleware d hdr of
        Inl e \<Rightarrow> (Inl e, d)
      | Inr u \<Rightarrow>
          if falsy audioData then (Inl NoAudio, d)
          else pushMessage d (threadKey (user_id u) friendId)
                 \<lparr>message_id = toString now, senderId = user_id u,
                  payload = VoicePayload (the audioData), message_time = isoTime, read = False\<rparr>)"

subsection \<open>Sequences of requests\<close>

datatype request =
  Register "string option" "string option" nat
| UpdateAvatar "string option" "string option"
| CreatePost "string option" "string option" "string option" nat nat
| ToggleLike "string option" string
| AddComment "string option" string "string option" nat string
| SendRequest "string option" string
| AcceptRequest "string option" string
| DeclineRequest "string option" string
| SendTextMessage "string option" string "string option" nat string
| SendVoiceMessage "string option" string "string option" nat string

text \<open>The document on disk after a request.\<close>

fun step :: "db \<Rightarrow> request \<Rightarrow> db" where
  "step d (Register uname pw now) = snd (register d uname pw now)"
| "step d (UpdateAvatar hdr img) = snd (updateAvatar d hdr img)"
| "step d (CreatePost hdr txt img now now') = snd (createPost d hdr txt img now now')"
| "step d (ToggleLike hdr postId) = snd (toggleLike d hdr postId)"
| "step d (AddComment hdr postId txt now isoTime) = snd (addComment d hdr postId txt now isoTime)"
| "step d (SendRequest hdr toUserId) = snd (sendRequest d hdr toUserId)"
| "step d (AcceptRequest hdr fromUserId) = snd (acceptRequest d hdr fromUserId)"
| "step d (DeclineRequest hdr fromUserId) = snd (declineRequest d hdr fromUserId)"
| "step d (SendTextMessage hdr friendId txt now isoTime) =
     snd (sendTextMessage d hdr friendId txt now isoTime)"
| "step d (SendVoiceMessage hdr friendId audioData now isoTime) =
     snd (sendVoiceMessage d hdr friendId audioData now isoTime)"

fun run :: "db \<Rightarrow> request list \<Rightarrow> db" where
  "run d [] = d"
| "run d (r # rs) = run (step d r) rs"

text \<open>The documents after each request of a sequence, in order.\<close>

fun states :: "db \<Rightarrow> request list \<Rightarrow> db list" where
  "states d [] = []"
| "states d (r # rs) = step d r # states (step d r) rs"

definition reachable :: "db \<Rightarrow> bool" where
  "reachable d \<longleftrightarrow> (\<exists>rs. d = run initialData rs)"

fun friend_request_op :: "request \<Rightarrow> bool" where
  "friend_request_op (SendRequest hdr toUserId) = True"
| "friend_request_op (AcceptRequest hdr fromUserId) = True"
| "friend_request_op (DeclineRequest hdr fromUserId) = True"
| "friend_request_op _ = False"

subsection \<open>A small store\<close>

text \<open>Two users, as registration builds them.\<close>

definition alice :: user where
  "alice = \<lparr>user_id = ''1'', username = ''alice'', password = ''a'', avatar = ''A'',
            avatarImage = None, bio = []\<rparr>"

definition bob :: user where
  "bob = \<lparr>user_id = ''2'', username = ''bob'', password = ''b'', avatar = ''B'',
          avatarImage = None, bio = []\<rparr>"

text \<open>The store after alice and bob have registered, at the clock readings 1 and 2.\<close>

definition two_users :: db where
  "two_users =
     run initialData [Register (Some ''alice'') (Some ''a'') 1, Register (Some ''bob'') (Some ''b'') 2]"

text \<open>
  Alice asks bob, bob accepts, and alice asks again.
\<close>

definition friends_then_request :: db where
  "friends_then_request =
     run two_users [SendRequest (Some ''1'') ''2'', AcceptRequest (Some ''2'') ''1'',
                    SendRequest (Some ''1'') ''2'']"

text \<open>
  Alice posts "hello" (clock readings 3 and 3).
\<close>

definition one_post :: db where
  "one_post = step two_users (CreatePost (Some ''1'') (Some ''hello'') None 3 3)"

text \<open>
  Two posts of alice whose ids were taken at the same reading of the clock (3): both have
  the id "3".
\<close>

definition dup_posts :: db where
  "dup_posts =
     run two_users [CreatePost (Some ''1'') (Some ''a'') None 3 3,
                    CreatePost (Some ''1'') (Some ''b'') None 3 4]"

text \<open>
  Three posts: the first two are created at the same reading of the clock (5), the third
  later (7).
\<close>

definition three_posts :: db where
  "three_posts =
     run two_users [CreatePost (Some ''1'') (Some ''a'') None 3 5,
                    CreatePost (Some ''2'') (Some ''b'') None 4 5,
                    CreatePost (Some ''1'') (Some ''c'') None 5 7]"

subsection \<open>Further invariants of the store\<close>

text \<open>No user is twice in the likes of a post.\<close>

definition likes_distinct :: "db \<Rightarrow> bool" where
  "likes_distinct d \<longleftrightarrow> (\<forall>p \<in> set (posts d). distinct (likes p))"

text \<open>
  The empty objects that registration stores in \<^verbatim>\<open>db.messages\<close> are under keys without
  an underscore.
\<close>

definition placeholders_apart :: "db \<Rightarrow> bool" where
  "placeholders_apart d \<longleftrightarrow> (\<forall>k. messages d k = Some EmptyObject \<longrightarrow> CHR ''_'' \<notin> set k)"

definition store_invariants :: "db \<Rightarrow> bool" where
  "store_invariants d \<longleftrightarrow>
     symmetric d \<and> mirror_consistent d \<and> likes_distinct d \<and> placeholders_apart d"

section \<open>Lookups after a write\<close>

lemma find_append_single:
  "find P (xs @ [y]) = (case find P xs of Some x \<Rightarrow> Some x | None \<Rightarrow> if P y then Some y else None)"
  by (induction xs) auto

lemma find_key_None_iff:
  "find (\<lambda>e. key e = k) xs = None \<longleftrightarrow> k \<notin> key ` set xs"
  by (induction xs) auto

lemma find_key_Some:
  "find (\<lambda>e. key e = k) xs = Some x \<Longrightarrow> k \<in> key ` set xs"
  by (induction xs) (auto split: if_splits)

lemma find_update_first_key:
  assumes "\<And>e. key (f e) = key e"
  shows "find (\<lambda>e. key e = x) (update_first (\<lambda>e. key e = k) f xs) =
           (if x = k then map_option f (find (\<lambda>e. key e = k) xs) else find (\<lambda>e. key e = x) xs)"
  using assms by (induction xs) auto

lemma keys_update_first:
  assumes "\<And>e. key (f e) = key e"
  shows "key ` set (update_first P f xs) = key ` set xs"
  using assms by (induction xs) auto

lemma sent_of_getFR [simp]: "sent_of (getFR d k) x = sent_of d x"
  by (auto simp: sent_of_def getFR_def find_append_single split: option.splits)

lemma received_of_getFR [simp]: "received_of (getFR d k) x = received_of d x"
  by (auto simp: received_of_def getFR_def find_append_single split: option.splits)

lemma friends_of_getFR [simp]: "friends_of (getFR d k) x = friends_of d x"
  by (auto simp: friends_of_def getFR_def split: option.splits)

lemma FR_keys_getFR [simp]: "FR_keys (getFR d k) = insert k (FR_keys d)"
  by (auto simp: FR_keys_def getFR_def find_key_None_iff split: option.splits
      dest: find_key_Some [where key = fr_userId])

lemma Friends_keys_getFR [simp]: "Friends_keys (getFR d k) = Friends_keys d"
  by (auto simp: Friends_keys_def getFR_def split: option.splits)

lemma sent_of_set_sent [simp]:
  "sent_of (set_sent k v d) x = (if x = k \<and> k \<in> FR_keys d then v else sent_of d x)"
  by (auto simp: sent_of_def set_sent_def FR_keys_def find_update_first_key [where key = fr_userId]
      find_key_None_iff [where key = fr_userId] split: option.splits
      dest: find_key_Some [where key = fr_userId])

lemma received_of_set_sent [simp]: "received_of (set_sent k v d) x = received_of d x"
  by (auto simp: received_of_def set_sent_def find_update_first_key [where key = fr_userId]
      split: option.splits)

lemma friends_of_set_sent [simp]: "friends_of (set_sent k v d) x = friends_of d x"
  by (simp add: friends_of_def set_sent_def)

lemma FR_keys_set_sent [simp]: "FR_keys (set_sent k v d) = FR_keys d"
  by (simp add: FR_keys_def set_sent_def keys_update_first [where key = fr_userId])

lemma Friends_keys_set_sent [simp]: "Friends_keys (set_sent k v d) = Friends_keys d"
  by (simp add: Friends_keys_def set_sent_def)

lemma received_of_set_received [simp]:
  "received_of (set_received k v d) x = (if x = k \<and> k \<in> FR_keys d then v else received_of d x)"
  by (auto simp: received_of_def set_received_def FR_keys_def
      find_update_first_key [where key = fr_userId]
      find_key_None_iff [where key = fr_userId] split: option.splits
      dest: find_key_Some [where key = fr_userId])

lemma sent_of_set_received [simp]: "sent_of (set_received k v d) x = sent_of d x"
  by (auto simp: sent_of_def set_received_def find_update_first_key [where key = fr_userId]
      split: option.splits)

lemma friends_of_set_received [simp]: "friends_of (set_received k v d) x = friends_of d x"
  by (simp add: friends_of_def set_received_def)

lemma FR_keys_set_received [simp]: "FR_keys (set_received k v d) = FR_keys d"
  by (simp add: FR_keys_def set_received_def keys_update_first [where key = fr_userId])

lemma Friends_keys_set_received [simp]: "Friends_keys (set_received k v d) = Friends_keys d"
  by (simp add: Friends_keys_def set_received_def)

lemma friends_of_getFriends [simp]: "friends_of (getFriends d k) x = friends_of d x"
  by (auto simp: friends_of_def getFriends_def find_append_single split: option.splits)

lemma sent_of_getFriends [simp]: "sent_of (getFriends d k) x = sent_of d x"
  by (auto simp: sent_of_def getFriends_def split: option.splits)

lemma received_of_getFriends [simp]: "received_of (getFriends d k) x = received_of d x"
  by (auto simp: received_of_def getFriends_def split: option.splits)

lemma Friends_keys_getFriends [simp]: "Friends_keys (getFriends d k) = insert k (Friends_keys d)"
  by (auto simp: Friends_keys_def getFriends_def find_key_None_iff split: option.splits
      dest: find_key_Some [where key = friends_userId])

lemma friends_of_set_friends [simp]:
  "friends_of (set_friends k v d) x = (if x = k \<and> k \<in> Friends_keys d then v else friends_of d x)"
  by (auto simp: friends_of_def set_friends_def Friends_keys_def
      find_update_first_key [where key = friends_userId]
      find_key_None_iff [where key = friends_userId] split: option.splits
      dest: find_key_Some [where key = friends_userId])

lemma sent_of_set_friends [simp]: "sent_of (set_friends k v d) x = sent_of d x"
  by (simp add: sent_of_def set_friends_def)

lemma received_of_set_friends [simp]: "received_of (set_friends k v d) x = received_of d x"
  by (simp add: received_of_def set_friends_def)

lemma Friends_keys_set_friends [simp]: "Friends_keys (set_friends k v d) = Friends_keys d"
  by (simp add: Friends_keys_def set_friends_def keys_update_first [where key = friends_userId])

section \<open>What the three request handlers do to the graph\<close>

lemma authMiddleware_Inr:
  "authMiddleware d hdr = Inr u \<Longrightarrow> hdr = Some (user_id u) \<and> user_id u \<noteq> [] \<and> u \<in> set (users d)"
  by (cases hdr) (auto simp: authMiddleware_def split: if_splits option.splits dest: find_Some_iff [THEN iffD1] simp: in_set_conv_nth)

lemma sendRequest_ok:
  assumes "authMiddleware d hdr = Inr u" "toUserId \<noteq> user_id u"
    "find (\<lambda>x. user_id x = toUserId) (users d) = Some t"
  shows "fst (sendRequest d hdr toUserId) = Inr ()"
    and "sent_of (snd (sendRequest d hdr toUserId)) x =
           (if x = user_id u \<and> toUserId \<notin> set (sent_of d x) then sent_of d x @ [toUserId]
            else sent_of d x)"
    and "received_of (snd (sendRequest d hdr toUserId)) x =
           (if x = toUserId \<and> user_id u \<notin> set (received_of d x) then received_of d x @ [user_id u]
            else received_of d x)"
    and "friends_of (snd (sendRequest d hdr toUserId)) x = friends_of d x"
  using assms by (auto simp: sendRequest_def Let_def)

lemma sendRequest_fail:
  "fst (sendRequest d hdr toUserId) = Inl e \<Longrightarrow> snd (sendRequest d hdr toUserId) = d"
  by (auto simp: sendRequest_def Let_def split: sum.splits if_splits option.splits)

lemma acceptRequest_ok:
  assumes "authMiddleware d hdr = Inr u"
  shows "fst (acceptRequest d hdr fromUserId) = Inr ()"
    and "sent_of (snd (acceptRequest d hdr fromUserId)) x =
           (if x = fromUserId then filter (\<lambda>i. i \<noteq> user_id u) (sent_of d x) else sent_of d x)"
    and "received_of (snd (acceptRequest d hdr fromUserId)) x =
           (if x = user_id u then filter (\<lambda>i. i \<noteq> fromUserId) (received_of d x)
            else received_of d x)"
    and "set (friends_of (snd (acceptRequest d hdr fromUserId)) x) =
           set (friends_of d x) \<union> (if x = user_id u then {fromUserId} else {})
             \<union> (if x = fromUserId then {user_id u} else {})"
  using assms by (auto simp: acceptRequest_def Let_def)

lemma declineRequest_ok:
  assumes "authMiddleware d hdr = Inr u"
  shows "fst (declineRequest d hdr fromUserId) = Inr ()"
    and "sent_of (snd (declineRequest d hdr fromUserId)) x =
           (if x = fromUserId then filter (\<lambda>i. i \<noteq> user_id u) (sent_of d x) else sent_of d x)"
    and "received_of (snd (declineRequest d hdr fromUserId)) x =
           (if x = user_id u then filter (\<lambda>i. i \<noteq> fromUserId) (received_of d x)
            else received_of d x)"
    and "friends_of (snd (declineRequest d hdr fromUserId)) x = friends_of d x"
  using assms by (auto simp: declineRequest_def Let_def)


lemma sendRequest_cases:
  "snd (sendRequest d hdr toUserId) = d \<or>
   (\<exists>u t. authMiddleware d hdr = Inr u \<and> toUserId \<noteq> user_id u \<and>
      find (\<lambda>x. user_id x = toUserId) (users d) = Some t)"
  by (auto simp: sendRequest_def split: sum.splits option.splits)

lemma acceptRequest_cases:
  "snd (acceptRequest d hdr fromUserId) = d \<or> (\<exists>u. authMiddleware d hdr = Inr u)"
  by (auto simp: acceptRequest_def split: sum.splits)

lemma declineRequest_cases:
  "snd (declineRequest d hdr fromUserId) = d \<or> (\<exists>u. authMiddleware d hdr = Inr u)"
  by (auto simp: declineRequest_def split: sum.splits)

lemma symmetric_sendRequest:
  "symmetric d \<Longrightarrow> symmetric (snd (sendRequest d hdr toUserId))"
  using sendRequest_cases [of d hdr toUserId]
  by (auto simp: symmetric_def sendRequest_ok(4))

lemma mirror_consistent_sendRequest:
  assumes "mirror_consistent d"
  shows "mirror_consistent (snd (sendRequest d hdr toUserId))"
proof -
  consider "snd (sendRequest d hdr toUserId) = d"
    | u t where "authMiddleware d hdr = Inr u" "toUserId \<noteq> user_id u"
        "find (\<lambda>x. user_id x = toUserId) (users d) = Some t"
    using sendRequest_cases [of d hdr toUserId] by blast
  then show ?thesis
  proof cases
    case 1
    with assms show ?thesis by simp
  next
    case 2
    from assms have m: "\<And>A B. B \<in> set (sent_of d A) \<longleftrightarrow> A \<in> set (received_of d B)"
      by (simp add: mirror_consistent_def)
    show ?thesis
      unfolding mirror_consistent_def
      by (auto simp: sendRequest_ok(2,3) [OF 2] m)
  qed
qed

lemma symmetric_acceptRequest:
  assumes "symmetric d"
  shows "symmetric (snd (acceptRequest d hdr fromUserId))"
proof -
  consider "snd (acceptRequest d hdr fromUserId) = d" | u where "authMiddleware d hdr = Inr u"
    using acceptRequest_cases [of d hdr fromUserId] by blast
  then show ?thesis
  proof cases
    case 1
    with assms show ?thesis by simp
  next
    case 2
    from assms have m: "\<And>A B. B \<in> set (friends_of d A) \<longleftrightarrow> A \<in> set (friends_of d B)"
      by (simp add: symmetric_def)
    show ?thesis
      unfolding symmetric_def
      by (auto simp: acceptRequest_ok(4) [OF 2] m)
  qed
qed

lemma mirror_consistent_acceptRequest:
  assumes "mirror_consistent d"
  shows "mirror_consistent (snd (acceptRequest d hdr fromUserId))"
proof -
  consider "snd (acceptRequest d hdr fromUserId) = d" | u where "authMiddleware d hdr = Inr u"
    using acceptRequest_cases [of d hdr fromUserId] by blast
  then show ?thesis
  proof cases
    case 1
    with assms show ?thesis by simp
  next
    case 2
    from assms have m: "\<And>A B. B \<in> set (sent_of d A) \<longleftrightarrow> A \<in> set (received_of d B)"
      by (simp add: mirror_consistent_def)
    show ?thesis
      unfolding mirror_consistent_def
      by (auto simp: acceptRequest_ok(2,3) [OF 2] m)
  qed
qed

lemma symmetric_declineRequest:
  "symmetric d \<Longrightarrow> symmetric (snd (declineRequest d hdr fromUserId))"
  using declineRequest_cases [of d hdr fromUserId]
  by (auto simp: symmetric_def declineRequest_ok(4))

lemma mirror_consistent_declineRequest:
  assumes "mirror_consistent d"
  shows "mirror_consistent (snd (declineRequest d hdr fromUserId))"
proof -
  consider "snd (declineRequest d hdr fromUserId) = d" | u where "authMiddleware d hdr = Inr u"
    using declineRequest_cases [of d hdr fromUserId] by blast
  then show ?thesis
  proof cases
    case 1
    with assms show ?thesis by simp
  next
    case 2
    from assms have m: "\<And>A B. B \<in> set (sent_of d A) \<longleftrightarrow> A \<in> set (received_of d B)"
      by (simp add: mirror_consistent_def)
    show ?thesis
      unfolding mirror_consistent_def
      by (auto simp: declineRequest_ok(2,3) [OF 2] m)
  qed
qed

section \<open>The handlers leave the users alone\<close>

lemma users_getFR [simp]: "users (getFR d k) = users d"
  by (simp add: getFR_def split: option.splits)

lemma users_getFriends [simp]: "users (getFriends d k) = users d"
  by (simp add: getFriends_def split: option.splits)

lemma users_set_sent [simp]: "users (set_sent k v d) = users d"
  by (simp add: set_sent_def)

lemma users_set_received [simp]: "users (set_received k v d) = users d"
  by (simp add: set_received_def)

lemma users_set_friends [simp]: "users (set_friends k v d) = users d"
  by (simp add: set_friends_def)

lemma users_sendRequest [simp]: "users (snd (sendRequest d hdr toUserId)) = users d"
  by (simp add: sendRequest_def Let_def split: sum.splits option.splits)

lemma users_acceptRequest [simp]: "users (snd (acceptRequest d hdr fromUserId)) = users d"
  by (simp add: acceptRequest_def Let_def split: sum.splits)

lemma users_declineRequest [simp]: "users (snd (declineRequest d hdr fromUserId)) = users d"
  by (simp add: declineRequest_def Let_def split: sum.splits)

lemma authMiddleware_sendRequest [simp]:
  "authMiddleware (snd (sendRequest d hdr toUserId)) h = authMiddleware d h"
  by (simp add: authMiddleware_def)

lemma authMiddleware_acceptRequest [simp]:
  "authMiddleware (snd (acceptRequest d hdr fromUserId)) h = authMiddleware d h"
  by (simp add: authMiddleware_def)

lemma authMiddleware_declineRequest [simp]:
  "authMiddleware (snd (declineRequest d hdr fromUserId)) h = authMiddleware d h"
  by (simp add: authMiddleware_def)

section \<open>The small store, evaluated\<close>

lemma toString_digit: "n < 10 \<Longrightarrow> toString n = [digit n]"
  by (simp add: toString.simps)

lemma toString_1 [simp]: "toString 1 = ''1''" "toString (Suc 0) = ''1''"
  by code_simp+

lemma toUpperCase_a [simp]: "toUpperCase ''a'' = ''A''"
  by code_simp

lemma toUpperCase_b [simp]: "toUpperCase ''b'' = ''B''"
  by code_simp

lemma toString_2 [simp]: "toString 2 = ''2''"
  by code_simp

declare alice_def [simp] bob_def [simp]

lemma two_users_eq:
  "two_users =
     \<lparr>users = [alice,
               bob],
      posts = [],
      db_friends = [\<lparr>friends_userId = ''1'', friends = []\<rparr>, \<lparr>friends_userId = ''2'', friends = []\<rparr>],
      friendRequests = [\<lparr>fr_userId = ''1'', sent = [], received = []\<rparr>,
                        \<lparr>fr_userId = ''2'', sent = [], received = []\<rparr>],
      messages = [''1'' \<mapsto> EmptyObject, ''2'' \<mapsto> EmptyObject]\<rparr>"
  by (simp add: two_users_def initialData_def register_def Let_def)

lemma auth_two_users [simp]:
  "authMiddleware two_users (Some ''1'') = Inr alice"
  "authMiddleware two_users (Some ''2'') = Inr bob"
  by (simp_all add: two_users_eq authMiddleware_def)

lemma friends_of_two_users [simp]: "friends_of two_users x = []"
  by (simp add: two_users_eq friends_of_def)

lemma sent_of_two_users [simp]: "sent_of two_users x = []"
  by (simp add: two_users_eq sent_of_def)

lemma received_of_two_users [simp]: "received_of two_users x = []"
  by (simp add: two_users_eq received_of_def)


lemma find_users_two_users [simp]:
  "find (\<lambda>x. user_id x = ''1'') (users two_users) = Some alice"
  "find (\<lambda>x. user_id x = ''2'') (users two_users) = Some bob"
  by (simp_all add: two_users_eq)


section \<open>The relationship graph\<close>

text \<open>
  C1. Starting from a store whose friendship graph is symmetric and whose request records
  mirror each other, after each request of any sequence of sendRequest, acceptRequest and
  declineRequest requests the graph is symmetric and the records mirror each other.
\<close>

theorem friend_requests_keep_invariants:
  assumes "symmetric d" and "mirror_consistent d" and "\<forall>r \<in> set rs. friend_request_op r"
  shows "\<forall>s \<in> set (states d rs). symmetric s \<and> mirror_consistent s"
  using assms
proof (induction rs arbitrary: d)
  case Nil
  then show ?case by simp
next
  case (Cons r rs)
  from Cons.prems(3) have op: "friend_request_op r" by simp
  have "symmetric (step d r) \<and> mirror_consistent (step d r)"
    using op Cons.prems(1,2)
    by (cases r)
      (simp_all add: symmetric_sendRequest mirror_consistent_sendRequest
        symmetric_acceptRequest mirror_consistent_acceptRequest
        symmetric_declineRequest mirror_consistent_declineRequest)
  moreover from this Cons.prems(3)
  have "\<forall>s \<in> set (states (step d r) rs). symmetric s \<and> mirror_consistent s"
    by (intro Cons.IH) simp_all
  ultimately show ?case by simp
qed



text \<open>
  Alice asks bob and bob accepts, from the store with the two of them registered.
\<close>

theorem friend_requests_keep_invariants_witness:
  "symmetric two_users \<and> mirror_consistent two_users
   \<and> friend_request_op (SendRequest (Some ''1'') ''2'')
   \<and> friend_request_op (AcceptRequest (Some ''2'') ''1'')
   \<and> symmetric (step two_users (SendRequest (Some ''1'') ''2''))
   \<and> mirror_consistent (step two_users (SendRequest (Some ''1'') ''2''))
   \<and> symmetric (step (step two_users (SendRequest (Some ''1'') ''2'')) (AcceptRequest (Some ''2'') ''1''))
   \<and> mirror_consistent
         (step (step two_users (SendRequest (Some ''1'') ''2'')) (AcceptRequest (Some ''2'') ''1''))"
proof -
  have s: "symmetric two_users"
    by (simp add: symmetric_def)
  have m: "mirror_consistent two_users"
    by (simp add: mirror_consistent_def)
  have f: "\<forall>r \<in> set [SendRequest (Some ''1'') ''2'', AcceptRequest (Some ''2'') ''1'']. friend_request_op r"
    by simp
  from friend_requests_keep_invariants [OF s m f] s m show ?thesis
    by simp
qed


text \<open>
  C3 says that no user is ever their own friend. The handler of sendRequest refuses the
  caller's own id; the handler of acceptRequest does not. Here alice accepts a request
  "from" alice's own id: the answer is success, and alice is in alice's own friend list
  afterwards.
\<close>

theorem acceptRequest_own_id_makes_self_friend:
  "fst (acceptRequest two_users (Some ''1'') ''1'') = Inr () \<and>
   ''1'' \<in> set (friends_of (snd (acceptRequest two_users (Some ''1'') ''1'')) ''1'')"
  by (simp add: acceptRequest_ok(1,4) [OF auth_two_users(1)])


text \<open>
  C4, as stated, fails: after alice has asked bob, bob has accepted and alice has asked
  again, bob is alice's friend and alice's request to bob is pending on both records.
\<close>

theorem pending_request_between_friends:
  "''2'' \<in> set (friends_of friends_then_request ''1'') \<and>
   ''2'' \<in> set (sent_of friends_then_request ''1'') \<and>
   ''1'' \<in> set (received_of friends_then_request ''2'')"
proof -
  let ?d1 = "snd (sendRequest two_users (Some ''1'') ''2'')"
  let ?d2 = "snd (acceptRequest ?d1 (Some ''2'') ''1'')"
  have a1: "authMiddleware ?d1 (Some ''2'') = Inr bob"
    by simp
  have a2: "authMiddleware ?d2 (Some ''1'') = Inr alice"
    by simp
  have t2: "find (\<lambda>x. user_id x = ''2'') (users ?d2) = Some bob"
    by simp
  have ne: "''2'' \<noteq> user_id alice"
    by simp
  show ?thesis
    unfolding friends_then_request_def
    by (simp add: sendRequest_ok(2,3,4) [OF a2 ne t2] acceptRequest_ok(4) [OF a1])
qed


text \<open>
  C4, amended. What acceptRequest guarantees is about the request it accepts: once it has
  succeeded, the two users are friends of each other and the accepted request is pending on
  neither record.
\<close>

theorem acceptRequest_clears_accepted_request:
  assumes "authMiddleware d hdr = Inr u"
  shows "fst (acceptRequest d hdr fromUserId) = Inr () \<and>
         fromUserId \<in> set (friends_of (snd (acceptRequest d hdr fromUserId)) (user_id u)) \<and>
         user_id u \<in> set (friends_of (snd (acceptRequest d hdr fromUserId)) fromUserId) \<and>
         fromUserId \<notin> set (received_of (snd (acceptRequest d hdr fromUserId)) (user_id u)) \<and>
         user_id u \<notin> set (sent_of (snd (acceptRequest d hdr fromUserId)) fromUserId)"
  by (simp add: acceptRequest_ok [OF assms])

text \<open>
  Bob accepts the request that alice has sent.
\<close>

theorem acceptRequest_clears_accepted_request_witness:
  "authMiddleware (snd (sendRequest two_users (Some ''1'') ''2'')) (Some ''2'') = Inr bob
   \<and> ''1'' \<in> set (received_of (snd (sendRequest two_users (Some ''1'') ''2'')) ''2'')
   \<and> fst (acceptRequest (snd (sendRequest two_users (Some ''1'') ''2'')) (Some ''2'') ''1'') = Inr ()
   \<and> ''1'' \<in> set (friends_of
         (snd (acceptRequest (snd (sendRequest two_users (Some ''1'') ''2'')) (Some ''2'') ''1'')) ''2'')
   \<and> ''2'' \<in> set (friends_of
         (snd (acceptRequest (snd (sendRequest two_users (Some ''1'') ''2'')) (Some ''2'') ''1'')) ''1'')
   \<and> ''1'' \<notin> set (received_of
         (snd (acceptRequest (snd (sendRequest two_users (Some ''1'') ''2'')) (Some ''2'') ''1'')) ''2'')
   \<and> ''2'' \<notin> set (sent_of
         (snd (acceptRequest (snd (sendRequest two_users (Some ''1'') ''2'')) (Some ''2'') ''1'')) ''1'')"
proof -
  let ?d1 = "snd (sendRequest two_users (Some ''1'') ''2'')"
    have a: "authMiddleware ?d1 (Some ''2'') = Inr bob"
    by simp
  have r: "''1'' \<in> set (received_of ?d1 ''2'')"
    by (simp add: sendRequest_ok(3) [OF auth_two_users(1) _ find_users_two_users(2)])
  from acceptRequest_clears_accepted_request [OF a, of "''1''"] a r show ?thesis
    by simp
qed

lemma getFR_present: "k \<in> FR_keys d \<Longrightarrow> getFR d k = d"
  by (auto simp: getFR_def FR_keys_def find_key_None_iff [where key = fr_userId] split: option.splits)

lemma FR_keys_sendRequest:
  assumes "authMiddleware d hdr = Inr u" "toUserId \<noteq> user_id u"
    "find (\<lambda>x. user_id x = toUserId) (users d) = Some t"
  shows "FR_keys (snd (sendRequest d hdr toUserId)) = insert (user_id u) (insert toUserId (FR_keys d))"
  using assms by (auto simp: sendRequest_def Let_def)

text \<open>
  C5. For an authenticated caller and an existing target other than the caller, a second
  sendRequest to the same target succeeds and leaves the store exactly as the first one
  left it.
\<close>

theorem sendRequest_idempotent:
  assumes "authMiddleware d hdr = Inr u" and "toUserId \<noteq> user_id u"
    and "find (\<lambda>x. user_id x = toUserId) (users d) = Some t"
  shows "fst (sendRequest (snd (sendRequest d hdr toUserId)) hdr toUserId) = Inr () \<and>
         snd (sendRequest (snd (sendRequest d hdr toUserId)) hdr toUserId) =
           snd (sendRequest d hdr toUserId)"
proof -
  define d1 where "d1 = snd (sendRequest d hdr toUserId)"
  have a: "authMiddleware d1 hdr = Inr u"
    using assms(1) by (simp add: d1_def)
  have t: "find (\<lambda>x. user_id x = toUserId) (users d1) = Some t"
    using assms(3) by (simp add: d1_def)
  have k: "user_id u \<in> FR_keys d1" "toUserId \<in> FR_keys d1"
    by (simp_all add: d1_def FR_keys_sendRequest [OF assms])
  have s: "toUserId \<in> set (sent_of d1 (user_id u))"
    by (simp add: d1_def sendRequest_ok(2) [OF assms])
  have r: "user_id u \<in> set (received_of d1 toUserId)"
    by (simp add: d1_def sendRequest_ok(3) [OF assms])
  have "sendRequest d1 hdr toUserId = (Inr (), d1)"
    using assms(2) by (simp add: sendRequest_def a t k s r getFR_present)
  then show ?thesis
    by (simp add: d1_def)
qed

text \<open>
  Alice asks bob twice.
\<close>

theorem sendRequest_idempotent_witness:
  "authMiddleware two_users (Some ''1'') = Inr alice
   \<and> find (\<lambda>x. user_id x = ''2'') (users two_users) = Some bob
   \<and> ''2'' \<in> set (sent_of (snd (sendRequest two_users (Some ''1'') ''2'')) ''1'')
   \<and> fst (sendRequest (snd (sendRequest two_users (Some ''1'') ''2'')) (Some ''1'') ''2'') = Inr ()
   \<and> snd (sendRequest (snd (sendRequest two_users (Some ''1'') ''2'')) (Some ''1'') ''2'') =
       snd (sendRequest two_users (Some ''1'') ''2'')"
proof -
  have ne: "''2'' \<noteq> user_id alice"
    by simp
  have s: "''2'' \<in> set (sent_of (snd (sendRequest two_users (Some ''1'') ''2'')) ''1'')"
    by (simp add: sendRequest_ok(2) [OF auth_two_users(1) ne find_users_two_users(2)])
  from sendRequest_idempotent [OF auth_two_users(1) ne find_users_two_users(2)] s show ?thesis
    by simp
qed

lemma db_friends_declineRequest: "db_friends (snd (declineRequest d hdr fromUserId)) = db_friends d"
  by (simp add: declineRequest_def Let_def getFR_def set_sent_def set_received_def
      split: sum.splits option.splits)

text \<open>
  C6. In a store whose request records mirror each other, declining a request that is not
  among the caller's received requests succeeds, leaves the friends collection as it is,
  and changes no user's friends, sent or received list.
\<close>

theorem declineRequest_never_sent:
  assumes "authMiddleware d hdr = Inr u" and "mirror_consistent d"
    and "fromUserId \<notin> set (received_of d (user_id u))"
  shows "fst (declineRequest d hdr fromUserId) = Inr () \<and>
         db_friends (snd (declineRequest d hdr fromUserId)) = db_friends d \<and>
         (\<forall>x. friends_of (snd (declineRequest d hdr fromUserId)) x = friends_of d x \<and>
              sent_of (snd (declineRequest d hdr fromUserId)) x = sent_of d x \<and>
              received_of (snd (declineRequest d hdr fromUserId)) x = received_of d x)"
proof -
  from assms(2,3) have "user_id u \<notin> set (sent_of d fromUserId)"
    by (simp add: mirror_consistent_def)
  then have s: "filter (\<lambda>i. i \<noteq> user_id u) (sent_of d fromUserId) = sent_of d fromUserId"
    by (auto simp: filter_id_conv)
  from assms(3)
  have r: "filter (\<lambda>i. i \<noteq> fromUserId) (received_of d (user_id u)) = received_of d (user_id u)"
    by (auto simp: filter_id_conv)
  show ?thesis
    using s r by (auto simp: declineRequest_ok [OF assms(1)] db_friends_declineRequest)
qed

text \<open>
  Bob declines a request from alice that alice never sent.
\<close>

theorem declineRequest_never_sent_witness:
  "authMiddleware two_users (Some ''2'') = Inr bob
   \<and> mirror_consistent two_users
   \<and> ''1'' \<notin> set (received_of two_users ''2'')
   \<and> fst (declineRequest two_users (Some ''2'') ''1'') = Inr ()
   \<and> db_friends (snd (declineRequest two_users (Some ''2'') ''1'')) = db_friends two_users
   \<and> friends_of (snd (declineRequest two_users (Some ''2'') ''1'')) ''2'' = []
   \<and> sent_of (snd (declineRequest two_users (Some ''2'') ''1'')) ''1'' = []
   \<and> received_of (snd (declineRequest two_users (Some ''2'') ''1'')) ''2'' = []"
proof -
    have m: "mirror_consistent two_users"
    by (simp add: mirror_consistent_def)
  have n: "''1'' \<notin> set (received_of two_users (user_id bob))"
    by simp
  from declineRequest_never_sent [OF auth_two_users(2) m n] m show ?thesis
    by simp
qed

section \<open>Chat addressing\<close>

text \<open>
  The chat id is the two ids in the order of \<^verbatim>\<open>sort\<close>, joined by an underscore. The ids
  that registration assigns are decimal numerals, so they hold no underscore; the id in
  the path of a chat request is any string.
\<close>

lemma threadKey_eq:
  "threadKey a b = (if b < a then b @ ''_'' @ a else a @ ''_'' @ b)"
  by (auto simp: threadKey_def sort_by_def default_compare_def)

lemma threadKey_commute: "threadKey a b = threadKey b a"
  by (auto simp: threadKey_eq)

lemma separator_in_threadKey: "CHR ''_'' \<in> set (threadKey a b)"
  by (simp add: threadKey_eq)

lemma split_at_separator:
  assumes "c \<notin> set x" and "c \<notin> set x'" and "x @ c # y = x' @ c # y'"
  shows "x = x' \<and> y = y'"
  using assms
proof (induction x arbitrary: x')
  case Nil
  then show ?case by (cases x') auto
next
  case (Cons a x)
  then show ?case by (cases x') auto
qed

lemma digit_not_separator: "n < 10 \<Longrightarrow> digit n \<noteq> CHR ''_''"
proof
  assume n: "n < 10" and "digit n = CHR ''_''"
  then have "of_char (char_of (48 + n)) = (of_char (CHR ''_'') :: nat)"
    by (simp add: digit_def)
  with n show False by simp
qed

lemma toString_no_separator: "CHR ''_'' \<notin> set (toString n)"
proof (induction n rule: toString.induct)
  case (1 n)
  show ?case
  proof (cases "n < 10")
    case True
    then show ?thesis
      using digit_not_separator [of n] by (simp add: toString.simps [of n])
  next
    case False
    then show ?thesis
      using 1 digit_not_separator [of "n mod 10"] by (simp add: toString.simps [of n])
  qed
qed

text \<open>
  C2, as stated, fails: the chat id of users 1 and "2_3" is the chat id of users 3 and
  "1_2", and the chat id of "_x_" with "x_" is that of "_x_" with "_x".
\<close>

theorem threadKey_collision:
  "threadKey ''1'' ''2_3'' = threadKey ''3'' ''1_2'' \<and> {''1'', ''2_3''} \<noteq> {''3'', ''1_2''} \<and>
   threadKey ''_x_'' ''x_'' = threadKey ''_x_'' ''_x'' \<and> ''x_'' \<noteq> ''_x''"
  by (simp add: threadKey_eq doubleton_eq_iff)

text \<open>
  C2, amended. The chat id does not depend on the order of the two ids, and among ids that
  hold no underscore two different unordered pairs never have the same chat id.
\<close>

theorem threadKey_commutative_injective:
  "threadKey A B = threadKey B A \<and>
   (CHR ''_'' \<notin> set A \<union> set B \<union> set C \<union> set D \<longrightarrow> {A, B} \<noteq> {C, D} \<longrightarrow>
      threadKey A B \<noteq> threadKey C D)"
proof (intro conjI impI notI)
  show "threadKey A B = threadKey B A"
    by (rule threadKey_commute)
next
  assume free: "CHR ''_'' \<notin> set A \<union> set B \<union> set C \<union> set D"
    and ne: "{A, B} \<noteq> {C, D}" and eq: "threadKey A B = threadKey C D"
  from eq free have "(A = C \<and> B = D) \<or> (A = D \<and> B = C)"
    by (auto simp: threadKey_eq split: if_splits dest!: split_at_separator [rotated 2])
  with ne show False
    by (auto simp: doubleton_eq_iff)
qed

text \<open>
  Users 1, 2 and 3: the chats of 1 with 2 and of 1 with 3 have different ids.
\<close>

theorem threadKey_commutative_injective_witness:
  "CHR ''_'' \<notin> set ''1'' \<union> set ''2'' \<union> set ''1'' \<union> set ''3'' \<and> {''1'', ''2''} \<noteq> {''1'', ''3''} \<and>
   threadKey ''1'' ''2'' = threadKey ''2'' ''1'' \<and> threadKey ''1'' ''2'' \<noteq> threadKey ''1'' ''3''"
proof -
  have f: "CHR ''_'' \<notin> set ''1'' \<union> set ''2'' \<union> set ''1'' \<union> set ''3''"
    by simp
  have n: "{''1'', ''2''} \<noteq> {''1'', ''3''}"
    by (simp add: doubleton_eq_iff)
  from threadKey_commutative_injective [of "''1''" "''2''" "''1''" "''3''"] f n show ?thesis
    by blast
qed

section \<open>The feed\<close>

lemma indexOf_None_iff: "indexOf x xs = None \<longleftrightarrow> x \<notin> set xs"
  by (induction xs) auto

lemma splice1_indexOf: "indexOf x xs = Some i \<Longrightarrow> splice1 i xs = remove1 x xs"
proof (induction xs arbitrary: i)
  case Nil
  then show ?case by simp
next
  case (Cons y ys)
  show ?case
  proof (cases "y = x")
    case True
    with Cons.prems show ?thesis by (simp add: splice1_def)
  next
    case False
    with Cons.prems obtain j where j: "indexOf x ys = Some j" "i = Suc j"
      by auto
    from Cons.IH [OF j(1)] False j(2) show ?thesis
      by (simp add: splice1_def)
  qed
qed

lemma toggle_eq: "toggle uid ls = (if uid \<in> set ls then remove1 uid ls else ls @ [uid])"
proof (cases "indexOf uid ls")
  case None
  then have "uid \<notin> set ls"
    by (simp add: indexOf_None_iff)
  with None show ?thesis
    by (simp add: toggle_def)
next
  case (Some i)
  then have "uid \<in> set ls"
    using indexOf_None_iff [of uid ls] by simp
  with Some show ?thesis
    by (simp add: toggle_def splice1_indexOf)
qed

lemma set_toggle:
  "distinct ls \<Longrightarrow> set (toggle uid ls) = (if uid \<in> set ls then set ls - {uid} else insert uid (set ls))"
  by (simp add: toggle_eq)

lemma distinct_toggle: "distinct ls \<Longrightarrow> distinct (toggle uid ls)"
  by (simp add: toggle_eq)

lemma toggle_toggle_set: "distinct ls \<Longrightarrow> set (toggle uid (toggle uid ls)) = set ls"
  by (auto simp: toggle_eq)

lemma toggle_toggle_absent: "uid \<notin> set ls \<Longrightarrow> toggle uid (toggle uid ls) = ls"
  by (simp add: toggle_eq remove1_append)

text \<open>
  When the caller is among the likes, two toggles give the same users back in another order:
  the caller is removed and then pushed at the end.
\<close>

lemma toggle_toggle_order: "toggle ''1'' (toggle ''1'' [''1'', ''2'']) = [''2'', ''1'']"
  by (simp add: toggle_eq)

lemma authMiddleware_users:
  "users d' = users d \<Longrightarrow> authMiddleware d' hdr = authMiddleware d hdr"
  by (simp add: authMiddleware_def)

lemma users_toggleLike: "users (snd (toggleLike d hdr postId)) = users d"
  by (simp add: toggleLike_def Let_def split: sum.splits option.splits)

lemma toggleLike_found:
  assumes "authMiddleware d hdr = Inr u" and "find (\<lambda>p. post_id p = postId) (posts d) = Some p"
  shows "fst (toggleLike d hdr postId) = Inr (toggle (user_id u) (likes p))"
    and "likes_of (snd (toggleLike d hdr postId)) postId = Some (toggle (user_id u) (likes p))"
    and "find (\<lambda>p. post_id p = postId) (posts (snd (toggleLike d hdr postId))) =
           Some (p\<lparr>likes := toggle (user_id u) (likes p)\<rparr>)"
  using assms
  by (simp_all add: toggleLike_def likes_of_def Let_def
      find_update_first_key [where key = post_id])

lemma toggleLike_unknown:
  assumes "authMiddleware d hdr = Inr u" and "find (\<lambda>p. post_id p = postId) (posts d) = None"
  shows "toggleLike d hdr postId = (Inl PostNotFound, d)"
  using assms by (simp add: toggleLike_def)

lemma toString_3 [simp]: "toString 3 = ''3''"
  by code_simp

lemma toString_4 [simp]: "toString 4 = ''4''"
  by code_simp

lemma toString_5 [simp]: "toString 5 = ''5''"
  by code_simp

lemma users_createPost [simp]: "users (snd (createPost d hdr txt img now now')) = users d"
  by (simp add: createPost_def Let_def split: sum.splits)

lemma authMiddleware_createPost [simp]:
  "authMiddleware (snd (createPost d hdr txt img now now')) h = authMiddleware d h"
  by (simp add: authMiddleware_def)

lemma posts_createPost:
  "posts (snd (createPost d hdr txt img now now')) =
     (case authMiddleware d hdr of
        Inl e \<Rightarrow> posts d
      | Inr u \<Rightarrow>
          if falsy txt \<and> falsy img then posts d
          else posts d @
            [\<lparr>post_id = toString now, authorId = user_id u, author = username u,
              authorAvatar = avatar u, authorAvatarImage = avatarImage u,
              post_text = (if falsy txt then [] else the txt),
              image = (if falsy img then None else img),
              createdAt = now', likes = [], comments = []\<rparr>])"
  by (simp add: createPost_def Let_def split: sum.splits)

lemma posts_two_users [simp]: "posts two_users = []"
  by (simp add: two_users_eq)

lemma one_post_eq:
  "one_post = two_users\<lparr>posts :=
     [\<lparr>post_id = ''3'', authorId = ''1'', author = ''alice'', authorAvatar = ''A'',
       authorAvatarImage = None, post_text = ''hello'', image = None, createdAt = 3,
       likes = [], comments = []\<rparr>]\<rparr>"
  by (simp add: one_post_def createPost_def Let_def)

lemma auth_one_post:
  "authMiddleware one_post (Some ''2'') = Inr bob"
  using auth_two_users(2) by (simp add: one_post_eq authMiddleware_def)

text \<open>
  When no two posts of the store have the same id, the id of a post of the store resolves
  to that post.
\<close>

lemma find_own_id:
  "distinct (map post_id ps) \<Longrightarrow> p \<in> set ps \<Longrightarrow> find (\<lambda>q. post_id q = post_id p) ps = Some p"
  by (induction ps) auto

lemma likes_of_own_id:
  "distinct (map post_id (posts d)) \<Longrightarrow> p \<in> set (posts d) \<Longrightarrow>
   likes_of d (post_id p) = Some (likes p)"
  by (simp add: likes_of_def find_own_id)

lemma posts_dup_posts:
  "posts dup_posts =
     [\<lparr>post_id = ''3'', authorId = ''1'', author = ''alice'', authorAvatar = ''A'',
       authorAvatarImage = None, post_text = ''a'', image = None, createdAt = 3,
       likes = [], comments = []\<rparr>,
      \<lparr>post_id = ''3'', authorId = ''1'', author = ''alice'', authorAvatar = ''A'',
       authorAvatarImage = None, post_text = ''b'', image = None, createdAt = 4,
       likes = [], comments = []\<rparr>]"
  by (simp add: dup_posts_def posts_createPost)

lemma auth_dup_posts: "authMiddleware dup_posts (Some ''2'') = Inr bob"
  by (simp add: dup_posts_def)

text \<open>
  C7, as stated for every post of the store, fails. The id of a post is the reading of the
  clock at its creation, and nothing keeps two posts from having the same id. In the store
  with two posts of id "3", toggling the like of post "3" as bob answers with bob as the
  only like, while the second post, which bob does not like, is in the store as before.
\<close>

theorem toggleLike_misses_second_post_with_same_id:
  "post_id (posts dup_posts ! 1) = ''3'' \<and>
   likes (posts dup_posts ! 1) = [] \<and>
   fst (toggleLike dup_posts (Some ''2'') ''3'') = Inr [''2''] \<and>
   posts (snd (toggleLike dup_posts (Some ''2'') ''3'')) ! 1 = posts dup_posts ! 1 \<and>
   likes (posts (snd (toggleLike dup_posts (Some ''2'') ''3'')) ! 1) = []"
  by (simp add: toggleLike_def auth_dup_posts posts_dup_posts Let_def toggle_eq)

text \<open>
  C7, amended: the post is the one that the id resolves to, the first post of the store
  with that id (every post of the store when no two posts have the same id). For an
  authenticated caller: a post id that resolves to no post is answered with PostNotFound
  and the store is unchanged. When the id resolves to a post in whose likes no user appears
  twice, one toggle answers with the new likes of that post, which are the old ones without
  the caller if the caller was among them and with the caller otherwise; a second toggle
  answers with likes that are, as a set, the original ones.
\<close>

theorem toggleLike_involution:
  assumes "authMiddleware d hdr = Inr u"
  shows "(likes_of d postId = None \<longrightarrow> toggleLike d hdr postId = (Inl PostNotFound, d)) \<and>
         (\<forall>ls. likes_of d postId = Some ls \<and> distinct ls \<longrightarrow>
            (\<exists>ls1 ls2.
               fst (toggleLike d hdr postId) = Inr ls1 \<and>
               likes_of (snd (toggleLike d hdr postId)) postId = Some ls1 \<and>
               set ls1 = (if user_id u \<in> set ls then set ls - {user_id u}
                          else insert (user_id u) (set ls)) \<and>
               fst (toggleLike (snd (toggleLike d hdr postId)) hdr postId) = Inr ls2 \<and>
               likes_of (snd (toggleLike (snd (toggleLike d hdr postId)) hdr postId)) postId = Some ls2 \<and>
               set ls2 = set ls))"
proof (intro conjI allI impI)
  assume "likes_of d postId = None"
  then show "toggleLike d hdr postId = (Inl PostNotFound, d)"
    using assms by (simp add: likes_of_def toggleLike_unknown)
next
  fix ls
  assume "likes_of d postId = Some ls \<and> distinct ls"
  then obtain p where p: "find (\<lambda>p. post_id p = postId) (posts d) = Some p"
    and ls: "likes p = ls" and dist: "distinct ls"
    by (auto simp: likes_of_def)
  let ?d1 = "snd (toggleLike d hdr postId)"
  let ?ls1 = "toggle (user_id u) ls"
  have a1: "authMiddleware ?d1 hdr = Inr u"
    using assms by (simp add: authMiddleware_users [OF users_toggleLike])
  have p1: "find (\<lambda>p. post_id p = postId) (posts ?d1) = Some (p\<lparr>likes := ?ls1\<rparr>)"
    using toggleLike_found(3) [OF assms p] ls by simp
  have "fst (toggleLike d hdr postId) = Inr ?ls1"
    using toggleLike_found(1) [OF assms p] ls by simp
  moreover have "likes_of ?d1 postId = Some ?ls1"
    using toggleLike_found(2) [OF assms p] ls by simp
  moreover have "set ?ls1 = (if user_id u \<in> set ls then set ls - {user_id u}
                              else insert (user_id u) (set ls))"
    using dist by (rule set_toggle)
  moreover have "fst (toggleLike ?d1 hdr postId) = Inr (toggle (user_id u) ?ls1)"
    using toggleLike_found(1) [OF a1 p1] by simp
  moreover have "likes_of (snd (toggleLike ?d1 hdr postId)) postId = Some (toggle (user_id u) ?ls1)"
    using toggleLike_found(2) [OF a1 p1] by simp
  moreover have "set (toggle (user_id u) ?ls1) = set ls"
    using dist by (rule toggle_toggle_set)
  ultimately show "\<exists>ls1 ls2.
               fst (toggleLike d hdr postId) = Inr ls1 \<and>
               likes_of (snd (toggleLike d hdr postId)) postId = Some ls1 \<and>
               set ls1 = (if user_id u \<in> set ls then set ls - {user_id u}
                          else insert (user_id u) (set ls)) \<and>
               fst (toggleLike (snd (toggleLike d hdr postId)) hdr postId) = Inr ls2 \<and>
               likes_of (snd (toggleLike (snd (toggleLike d hdr postId)) hdr postId)) postId = Some ls2 \<and>
               set ls2 = set ls"
    by blast
qed

text \<open>
  Bob likes alice's post and takes the like back; post 9 does not exist.
\<close>

theorem toggleLike_involution_witness:
  "authMiddleware one_post (Some ''2'') = Inr bob
   \<and> likes_of one_post ''3'' = Some [] \<and> distinct ([] :: string list)
   \<and> likes_of one_post ''9'' = None
   \<and> toggleLike one_post (Some ''2'') ''9'' = (Inl PostNotFound, one_post)
   \<and> (\<exists>ls1 ls2.
         fst (toggleLike one_post (Some ''2'') ''3'') = Inr ls1 \<and>
         likes_of (snd (toggleLike one_post (Some ''2'') ''3'')) ''3'' = Some ls1 \<and>
         set ls1 = {''2''} \<and>
         fst (toggleLike (snd (toggleLike one_post (Some ''2'') ''3'')) (Some ''2'') ''3'') = Inr ls2 \<and>
         likes_of (snd (toggleLike (snd (toggleLike one_post (Some ''2'') ''3'')) (Some ''2'') ''3'')) ''3''
           = Some ls2 \<and>
         set ls2 = {})"
proof -
  have l3: "likes_of one_post ''3'' = Some []"
    by (simp add: likes_of_def one_post_eq)
  have l9: "likes_of one_post ''9'' = None"
    by (simp add: likes_of_def one_post_eq)
  from toggleLike_involution [OF auth_one_post, of "''9''"] l9
  have "toggleLike one_post (Some ''2'') ''9'' = (Inl PostNotFound, one_post)"
    by blast
  moreover from toggleLike_involution [OF auth_one_post, of "''3''"] l3
  have "\<exists>ls1 ls2.
         fst (toggleLike one_post (Some ''2'') ''3'') = Inr ls1 \<and>
         likes_of (snd (toggleLike one_post (Some ''2'') ''3'')) ''3'' = Some ls1 \<and>
         set ls1 = {''2''} \<and>
         fst (toggleLike (snd (toggleLike one_post (Some ''2'') ''3'')) (Some ''2'') ''3'') = Inr ls2 \<and>
         likes_of (snd (toggleLike (snd (toggleLike one_post (Some ''2'') ''3'')) (Some ''2'') ''3'')) ''3''
           = Some ls2 \<and>
         set ls2 = {}"
    by simp
  ultimately show ?thesis
    using auth_one_post l3 l9 by simp
qed

text \<open>
  C8. For an authenticated caller, createPost answers EmptyPost exactly when text and image
  are both absent or empty, and the store is unchanged then; otherwise it appends one post
  to the posts, and the author fields of that post are the id, username, avatar and avatar
  image of the caller's user record.
\<close>

theorem createPost_empty_or_appended:
  assumes "authMiddleware d hdr = Inr u"
  shows "(fst (createPost d hdr txt img now now') = Inl EmptyPost \<longleftrightarrow> falsy txt \<and> falsy img) \<and>
         (falsy txt \<and> falsy img \<longrightarrow> snd (createPost d hdr txt img now now') = d) \<and>
         (\<not> (falsy txt \<and> falsy img) \<longrightarrow>
            (\<exists>p. createPost d hdr txt img now now' = (Inr p, d\<lparr>posts := posts d @ [p]\<rparr>) \<and>
                 authorId p = user_id u \<and> author p = username u \<and>
                 authorAvatar p = avatar u \<and> authorAvatarImage p = avatarImage u))"
  using assms by (simp add: createPost_def Let_def)

text \<open>
  Alice posts nothing (no text, an empty image), then posts "hello".
\<close>

theorem createPost_empty_or_appended_witness:
  "authMiddleware two_users (Some ''1'') = Inr alice
   \<and> falsy None \<and> falsy (Some [])
   \<and> fst (createPost two_users (Some ''1'') None (Some []) 3 3) = Inl EmptyPost
   \<and> snd (createPost two_users (Some ''1'') None (Some []) 3 3) = two_users
   \<and> \<not> (falsy (Some ''hello'') \<and> falsy None)
   \<and> (\<exists>p. createPost two_users (Some ''1'') (Some ''hello'') None 3 3 =
             (Inr p, two_users\<lparr>posts := posts two_users @ [p]\<rparr>) \<and>
           authorId p = ''1'' \<and> author p = ''alice'' \<and> authorAvatar p = ''A'' \<and>
           authorAvatarImage p = None)"
proof -
  from createPost_empty_or_appended [OF auth_two_users(1), of None "Some []" 3 3]
  have "fst (createPost two_users (Some ''1'') None (Some []) 3 3) = Inl EmptyPost \<and>
        snd (createPost two_users (Some ''1'') None (Some []) 3 3) = two_users"
    by simp
  moreover from createPost_empty_or_appended [OF auth_two_users(1), of "Some ''hello''" None 3 3]
  have "\<exists>p. createPost two_users (Some ''1'') (Some ''hello'') None 3 3 =
             (Inr p, two_users\<lparr>posts := posts two_users @ [p]\<rparr>) \<and>
           authorId p = ''1'' \<and> author p = ''alice'' \<and> authorAvatar p = ''A'' \<and>
           authorAvatarImage p = None"
    by simp
  ultimately show ?thesis
    using auth_two_users(1) by simp
qed

lemma mset_insert_by: "mset (insert_by cmp x xs) = add_mset x (mset xs)"
  by (induction xs) auto

lemma set_insert_by: "set (insert_by cmp x xs) = insert x (set xs)"
  by (induction xs) auto

lemma sort_by_Cons: "sort_by cmp (x # xs) = insert_by cmp x (sort_by cmp xs)"
  by (simp add: sort_by_def)

lemma sort_by_Nil: "sort_by cmp [] = []"
  by (simp add: sort_by_def)

lemma mset_sort_by: "mset (sort_by cmp xs) = mset xs"
  by (induction xs) (simp_all add: sort_by_Nil sort_by_Cons mset_insert_by)

lemma newest_first_insert_by:
  "sorted_wrt (\<lambda>a b. createdAt b \<le> createdAt a) xs \<Longrightarrow>
   sorted_wrt (\<lambda>a b. createdAt b \<le> createdAt a)
     (insert_by (\<lambda>a b. int (createdAt b) - int (createdAt a)) x xs)"
  by (induction xs) (auto simp: set_insert_by)

lemma newest_first_sort_by:
  "sorted_wrt (\<lambda>a b. createdAt b \<le> createdAt a)
     (sort_by (\<lambda>a b. int (createdAt b) - int (createdAt a)) xs)"
  by (induction xs) (simp_all add: sort_by_Nil sort_by_Cons newest_first_insert_by)

lemma stable_insert_by:
  "filter (\<lambda>p. createdAt p = t) (insert_by (\<lambda>a b. int (createdAt b) - int (createdAt a)) x xs) =
     (if createdAt x = t then x # filter (\<lambda>p. createdAt p = t) xs
      else filter (\<lambda>p. createdAt p = t) xs)"
  by (induction xs) auto

lemma stable_sort_by:
  "filter (\<lambda>p. createdAt p = t) (sort_by (\<lambda>a b. int (createdAt b) - int (createdAt a)) xs) =
     filter (\<lambda>p. createdAt p = t) xs"
  by (induction xs) (simp_all add: sort_by_Nil sort_by_Cons stable_insert_by)

text \<open>
  C9. For an authenticated caller, listPosts answers with the posts of the store (each as
  often as it is there), ordered by \<^verbatim>\<open>createdAt\<close> from the newest to the oldest, and the
  posts with the same \<^verbatim>\<open>createdAt\<close> are in the order in which the store holds them.
\<close>

theorem listPosts_newest_first_stable:
  assumes "authMiddleware d hdr = Inr u"
  shows "\<exists>ps. listPosts d hdr = Inr ps \<and> mset ps = mset (posts d) \<and>
              sorted_wrt (\<lambda>a b. createdAt b \<le> createdAt a) ps \<and>
              (\<forall>t. filter (\<lambda>p. createdAt p = t) ps = filter (\<lambda>p. createdAt p = t) (posts d))"
  using assms
  by (simp add: listPosts_def mset_sort_by newest_first_sort_by stable_sort_by)

lemma posts_three_posts:
  "posts three_posts =
     [\<lparr>post_id = ''3'', authorId = ''1'', author = ''alice'', authorAvatar = ''A'',
       authorAvatarImage = None, post_text = ''a'', image = None, createdAt = 5,
       likes = [], comments = []\<rparr>,
      \<lparr>post_id = ''4'', authorId = ''2'', author = ''bob'', authorAvatar = ''B'',
       authorAvatarImage = None, post_text = ''b'', image = None, createdAt = 5,
       likes = [], comments = []\<rparr>,
      \<lparr>post_id = ''5'', authorId = ''1'', author = ''alice'', authorAvatar = ''A'',
       authorAvatarImage = None, post_text = ''c'', image = None, createdAt = 7,
       likes = [], comments = []\<rparr>]"
  by (simp add: three_posts_def posts_createPost)

lemma auth_three_posts:
  "authMiddleware three_posts (Some ''1'') = Inr alice"
  by (simp add: three_posts_def)

text \<open>
  Posts 3 and 4 were created at the same reading of the clock, post 5 later: the answer is
  5, 3, 4.
\<close>

theorem listPosts_newest_first_stable_witness:
  "authMiddleware three_posts (Some ''1'') = Inr alice
   \<and> map post_id (posts three_posts) = [''3'', ''4'', ''5'']
   \<and> map createdAt (posts three_posts) = [5, 5, 7]
   \<and> (\<exists>ps. listPosts three_posts (Some ''1'') = Inr ps \<and> mset ps = mset (posts three_posts) \<and>
            sorted_wrt (\<lambda>a b. createdAt b \<le> createdAt a) ps \<and>
            map post_id ps = [''5'', ''3'', ''4''])"
proof -
  from listPosts_newest_first_stable [OF auth_three_posts]
  obtain ps where ps: "listPosts three_posts (Some ''1'') = Inr ps"
    "mset ps = mset (posts three_posts)" "sorted_wrt (\<lambda>a b. createdAt b \<le> createdAt a) ps"
    by blast
  from ps(1) have "map post_id ps = [''5'', ''3'', ''4'']"
    by (auto simp: listPosts_def auth_three_posts posts_three_posts sort_by_def)
  with ps show ?thesis
    by (simp add: auth_three_posts posts_three_posts)
qed

section \<open>Sending messages\<close>

text \<open>
  A chat id holds an underscore, and the keys under which registration stores the empty
  object hold none. So in a store that the handlers have built, what is stored under a chat
  id is an array or nothing, and \<^verbatim>\<open>push\<close> is defined. Properties that a JavaScript
  object inherits are not modelled: a chat id holds the caller's id, a decimal numeral, and
  no inherited property name holds a digit.
\<close>

lemma threadKey_not_placeholder:
  "placeholders_apart d \<Longrightarrow> messages d (threadKey a b) \<noteq> Some EmptyObject"
  using separator_in_threadKey [of a b] by (auto simp: placeholders_apart_def)

lemma pushMessage_thread:
  assumes "messages d chatId \<noteq> Some EmptyObject"
  shows "\<exists>ms. chatMessages d chatId = Thread ms \<and>
              pushMessage d chatId msg =
                (Inr msg, d\<lparr>messages := (messages d)(chatId \<mapsto> Thread (ms @ [msg]))\<rparr>)"
proof (cases "messages d chatId")
  case None
  then show ?thesis
    by (simp add: pushMessage_def chatMessages_def)
next
  case (Some v)
  with assms obtain ms where "v = Thread ms"
    by (cases v) auto
  with Some show ?thesis
    by (simp add: pushMessage_def chatMessages_def)
qed

text \<open>
  C10. For an authenticated caller, a store in which the empty objects are under keys
  without underscore, any peer id (also one of no user) and a non-empty text or audio
  payload: sendTextMessage and sendVoiceMessage succeed, and the store afterwards holds,
  under the chat id of the caller and the peer, the messages that were there (none when
  the chat did not exist) followed by the new message, whose sender is the caller. There is
  no branch that looks the peer up.
\<close>

theorem sending_needs_no_known_peer:
  assumes "authMiddleware d hdr = Inr u" and "placeholders_apart d" and "\<not> falsy body"
  shows "(\<exists>msg ms. chatMessages d (threadKey (user_id u) friendId) = Thread ms \<and>
            sendTextMessage d hdr friendId body now isoTime =
              (Inr msg, d\<lparr>messages :=
                  (messages d)(threadKey (user_id u) friendId \<mapsto> Thread (ms @ [msg]))\<rparr>) \<and>
            senderId msg = user_id u \<and> payload msg = TextPayload (the body)) \<and>
         (\<exists>msg ms. chatMessages d (threadKey (user_id u) friendId) = Thread ms \<and>
            sendVoiceMessage d hdr friendId body now isoTime =
              (Inr msg, d\<lparr>messages :=
                  (messages d)(threadKey (user_id u) friendId \<mapsto> Thread (ms @ [msg]))\<rparr>) \<and>
            senderId msg = user_id u \<and> payload msg = VoicePayload (the body))"
proof -
  let ?k = "threadKey (user_id u) friendId"
  have k: "messages d ?k \<noteq> Some EmptyObject"
    using assms(2) by (rule threadKey_not_placeholder)
  let ?t = "\<lparr>message_id = toString now, senderId = user_id u,
             payload = TextPayload (the body), message_time = isoTime, read = False\<rparr>"
  let ?v = "\<lparr>message_id = toString now, senderId = user_id u,
             payload = VoicePayload (the body), message_time = isoTime, read = False\<rparr>"
  from pushMessage_thread [OF k, of ?t] obtain ms where
    ms: "chatMessages d ?k = Thread ms"
    and t: "pushMessage d ?k ?t = (Inr ?t, d\<lparr>messages := (messages d)(?k \<mapsto> Thread (ms @ [?t]))\<rparr>)"
    by blast
  from pushMessage_thread [OF k, of ?v] ms
  have v: "pushMessage d ?k ?v = (Inr ?v, d\<lparr>messages := (messages d)(?k \<mapsto> Thread (ms @ [?v]))\<rparr>)"
    by auto
  have "sendTextMessage d hdr friendId body now isoTime =
          (Inr ?t, d\<lparr>messages := (messages d)(?k \<mapsto> Thread (ms @ [?t]))\<rparr>)"
    using assms(1,3) t by (simp add: sendTextMessage_def)
  moreover have "sendVoiceMessage d hdr friendId body now isoTime =
          (Inr ?v, d\<lparr>messages := (messages d)(?k \<mapsto> Thread (ms @ [?v]))\<rparr>)"
    using assms(1,3) v by (simp add: sendVoiceMessage_def)
  ultimately show ?thesis
    using ms by auto
qed

lemma placeholders_apart_two_users: "placeholders_apart two_users"
  by (simp add: placeholders_apart_def two_users_eq)

text \<open>
  Alice writes to "nobody", an id of no user.
\<close>

theorem sending_needs_no_known_peer_witness:
  "authMiddleware two_users (Some ''1'') = Inr alice
   \<and> placeholders_apart two_users \<and> \<not> falsy (Some ''hi'')
   \<and> find (\<lambda>x. user_id x = ''nobody'') (users two_users) = None
   \<and> messages two_users (threadKey ''1'' ''nobody'') = None
   \<and> (\<exists>msg. sendTextMessage two_users (Some ''1'') ''nobody'' (Some ''hi'') 3 ''t'' =
              (Inr msg, two_users\<lparr>messages :=
                  (messages two_users)(threadKey ''1'' ''nobody'' \<mapsto> Thread [msg])\<rparr>) \<and>
            senderId msg = ''1'' \<and> payload msg = TextPayload ''hi'')
   \<and> (\<exists>msg. sendVoiceMessage two_users (Some ''1'') ''nobody'' (Some ''hi'') 3 ''t'' =
              (Inr msg, two_users\<lparr>messages :=
                  (messages two_users)(threadKey ''1'' ''nobody'' \<mapsto> Thread [msg])\<rparr>) \<and>
            senderId msg = ''1'' \<and> payload msg = VoicePayload ''hi'')"
proof -
  have f: "\<not> falsy (Some ''hi'')"
    by simp
  have n: "find (\<lambda>x. user_id x = ''nobody'') (users two_users) = None"
    by (simp add: two_users_eq)
  have e: "messages two_users (threadKey ''1'' ''nobody'') = None"
    by (simp add: two_users_eq threadKey_eq)
  then have c: "chatMessages two_users (threadKey ''1'' ''nobody'') = Thread []"
    by (simp add: chatMessages_def)
  from sending_needs_no_known_peer [OF auth_two_users(1) placeholders_apart_two_users f,
      of "''nobody''" 3 "''t''"] c
  have "(\<exists>msg. sendTextMessage two_users (Some ''1'') ''nobody'' (Some ''hi'') 3 ''t'' =
              (Inr msg, two_users\<lparr>messages :=
                  (messages two_users)(threadKey ''1'' ''nobody'' \<mapsto> Thread [msg])\<rparr>) \<and>
            senderId msg = ''1'' \<and> payload msg = TextPayload ''hi'')
   \<and> (\<exists>msg. sendVoiceMessage two_users (Some ''1'') ''nobody'' (Some ''hi'') 3 ''t'' =
              (Inr msg, two_users\<lparr>messages :=
                  (messages two_users)(threadKey ''1'' ''nobody'' \<mapsto> Thread [msg])\<rparr>) \<and>
            senderId msg = ''1'' \<and> payload msg = VoicePayload ''hi'')"
    by auto
  then show ?thesis
    using auth_two_users(1) placeholders_apart_two_users f n e by blast
qed

section \<open>Every store that the handlers build satisfies the invariants\<close>

text \<open>
  The hypotheses on the store in the theorems above (mirrored request records, likes
  without repetition, empty objects under keys without underscore) hold in the initial
  store and are kept by every request, so they hold in every store that a sequence of
  requests builds from the initial one.
\<close>

lemma symmetric_frame: "db_friends d' = db_friends d \<Longrightarrow> symmetric d' = symmetric d"
  by (simp add: symmetric_def friends_of_def)

lemma mirror_consistent_frame:
  "friendRequests d' = friendRequests d \<Longrightarrow> mirror_consistent d' = mirror_consistent d"
  by (simp add: mirror_consistent_def sent_of_def received_of_def)

lemma likes_distinct_frame: "posts d' = posts d \<Longrightarrow> likes_distinct d' = likes_distinct d"
  by (simp add: likes_distinct_def)

lemma placeholders_apart_frame:
  "messages d' = messages d \<Longrightarrow> placeholders_apart d' = placeholders_apart d"
  by (simp add: placeholders_apart_def)

lemma graph_untouched:
  "db_friends (snd (updateAvatar d hdr img)) = db_friends d"
  "friendRequests (snd (updateAvatar d hdr img)) = friendRequests d"
  "db_friends (snd (createPost d hdr txt img now now')) = db_friends d"
  "friendRequests (snd (createPost d hdr txt img now now')) = friendRequests d"
  "db_friends (snd (toggleLike d hdr postId)) = db_friends d"
  "friendRequests (snd (toggleLike d hdr postId)) = friendRequests d"
  "db_friends (snd (addComment d hdr postId txt now isoTime)) = db_friends d"
  "friendRequests (snd (addComment d hdr postId txt now isoTime)) = friendRequests d"
  "db_friends (snd (sendTextMessage d hdr friendId txt now isoTime)) = db_friends d"
  "friendRequests (snd (sendTextMessage d hdr friendId txt now isoTime)) = friendRequests d"
  "db_friends (snd (sendVoiceMessage d hdr friendId txt now isoTime)) = db_friends d"
  "friendRequests (snd (sendVoiceMessage d hdr friendId txt now isoTime)) = friendRequests d"
  by (simp_all add: updateAvatar_def createPost_def toggleLike_def addComment_def
      sendTextMessage_def sendVoiceMessage_def pushMessage_def Let_def
      split: sum.splits option.splits messages_value.splits)

lemma posts_getFR [simp]: "posts (getFR d k) = posts d"
  by (simp add: getFR_def split: option.splits)

lemma posts_getFriends [simp]: "posts (getFriends d k) = posts d"
  by (simp add: getFriends_def split: option.splits)

lemma posts_set_sent [simp]: "posts (set_sent k v d) = posts d"
  by (simp add: set_sent_def)

lemma posts_set_received [simp]: "posts (set_received k v d) = posts d"
  by (simp add: set_received_def)

lemma posts_set_friends [simp]: "posts (set_friends k v d) = posts d"
  by (simp add: set_friends_def)

lemma messages_getFR [simp]: "messages (getFR d k) = messages d"
  by (simp add: getFR_def split: option.splits)

lemma messages_getFriends [simp]: "messages (getFriends d k) = messages d"
  by (simp add: getFriends_def split: option.splits)

lemma messages_set_sent [simp]: "messages (set_sent k v d) = messages d"
  by (simp add: set_sent_def)

lemma messages_set_received [simp]: "messages (set_received k v d) = messages d"
  by (simp add: set_received_def)

lemma messages_set_friends [simp]: "messages (set_friends k v d) = messages d"
  by (simp add: set_friends_def)

lemma posts_pushMessage [simp]: "posts (snd (pushMessage d chatId msg)) = posts d"
  by (simp add: pushMessage_def split: option.splits messages_value.splits)

lemma posts_untouched:
  "posts (snd (register d uname pw now)) = posts d"
  "posts (snd (updateAvatar d hdr img)) = posts d"
  "posts (snd (sendRequest d hdr toUserId)) = posts d"
  "posts (snd (acceptRequest d hdr fromUserId)) = posts d"
  "posts (snd (declineRequest d hdr fromUserId)) = posts d"
  "posts (snd (sendTextMessage d hdr friendId txt now isoTime)) = posts d"
  "posts (snd (sendVoiceMessage d hdr friendId txt now isoTime)) = posts d"
  by (simp_all add: register_def updateAvatar_def sendRequest_def acceptRequest_def
      declineRequest_def sendTextMessage_def sendVoiceMessage_def Let_def
      split: sum.splits option.splits)

lemma messages_untouched:
  "messages (snd (updateAvatar d hdr img)) = messages d"
  "messages (snd (createPost d hdr txt img now now')) = messages d"
  "messages (snd (toggleLike d hdr postId)) = messages d"
  "messages (snd (addComment d hdr postId txt now isoTime)) = messages d"
  "messages (snd (sendRequest d hdr toUserId)) = messages d"
  "messages (snd (acceptRequest d hdr fromUserId)) = messages d"
  "messages (snd (declineRequest d hdr fromUserId)) = messages d"
  by (simp_all add: updateAvatar_def createPost_def toggleLike_def addComment_def
      sendRequest_def acceptRequest_def declineRequest_def Let_def
      split: sum.splits option.splits)

lemma register_graph:
  "friends_of (snd (register d uname pw now)) x = friends_of d x"
  "sent_of (snd (register d uname pw now)) x = sent_of d x"
  "received_of (snd (register d uname pw now)) x = received_of d x"
  by (auto simp: register_def Let_def friends_of_def sent_of_def received_of_def
      find_append_single split: option.splits)

lemma symmetric_register: "symmetric (snd (register d uname pw now)) = symmetric d"
  by (simp add: symmetric_def register_graph)

lemma mirror_consistent_register:
  "mirror_consistent (snd (register d uname pw now)) = mirror_consistent d"
  by (simp add: mirror_consistent_def register_graph)

lemma placeholders_apart_register:
  "placeholders_apart d \<Longrightarrow> placeholders_apart (snd (register d uname pw now))"
  by (auto simp: placeholders_apart_def register_def Let_def toString_no_separator)

lemma placeholders_apart_pushMessage:
  "placeholders_apart d \<Longrightarrow> placeholders_apart (snd (pushMessage d chatId msg))"
  by (auto simp: placeholders_apart_def pushMessage_def Let_def
      split: option.splits messages_value.splits)

lemma placeholders_apart_sendTextMessage:
  "placeholders_apart d \<Longrightarrow>
   placeholders_apart (snd (sendTextMessage d hdr friendId txt now isoTime))"
  by (simp add: sendTextMessage_def placeholders_apart_pushMessage split: sum.splits)

lemma placeholders_apart_sendVoiceMessage:
  "placeholders_apart d \<Longrightarrow>
   placeholders_apart (snd (sendVoiceMessage d hdr friendId txt now isoTime))"
  by (simp add: sendVoiceMessage_def placeholders_apart_pushMessage split: sum.splits)

lemma set_update_first: "set (update_first P f xs) \<subseteq> set xs \<union> f ` {x \<in> set xs. P x}"
  by (induction xs) auto

lemma likes_distinct_createPost:
  "likes_distinct d \<Longrightarrow> likes_distinct (snd (createPost d hdr txt img now now'))"
  by (auto simp: likes_distinct_def createPost_def Let_def split: sum.splits)

lemma likes_distinct_toggleLike:
  assumes "likes_distinct d"
  shows "likes_distinct (snd (toggleLike d hdr postId))"
proof (cases "authMiddleware d hdr")
  case (Inl e)
  with assms show ?thesis by (simp add: toggleLike_def)
next
  case (Inr u)
  show ?thesis
  proof (cases "find (\<lambda>p. post_id p = postId) (posts d)")
    case None
    with Inr assms show ?thesis by (simp add: toggleLike_def)
  next
    case (Some p)
    then have "p \<in> set (posts d)"
      by (auto simp: find_Some_iff in_set_conv_nth)
    with assms have dp: "distinct (likes p)"
      by (simp add: likes_distinct_def)
    have "\<And>q. q \<in> set (update_first (\<lambda>p. post_id p = postId)
             (\<lambda>q. q\<lparr>likes := toggle (user_id u) (likes p)\<rparr>) (posts d)) \<Longrightarrow> distinct (likes q)"
      using set_update_first [of "\<lambda>p. post_id p = postId"
          "\<lambda>q. q\<lparr>likes := toggle (user_id u) (likes p)\<rparr>" "posts d"] assms dp
      by (auto simp: likes_distinct_def distinct_toggle)
    with Inr Some show ?thesis
      by (simp add: toggleLike_def Let_def likes_distinct_def)
  qed
qed

lemma likes_distinct_addComment:
  assumes "likes_distinct d"
  shows "likes_distinct (snd (addComment d hdr postId txt now isoTime))"
proof -
  have "\<And>c q. q \<in> set (update_first (\<lambda>p. post_id p = postId)
             (\<lambda>p. p\<lparr>comments := comments p @ [c]\<rparr>) (posts d)) \<Longrightarrow> distinct (likes q)"
  proof -
    fix c q
    assume "q \<in> set (update_first (\<lambda>p. post_id p = postId)
             (\<lambda>p. p\<lparr>comments := comments p @ [c]\<rparr>) (posts d))"
    with set_update_first [of "\<lambda>p. post_id p = postId"
          "\<lambda>p. p\<lparr>comments := comments p @ [c]\<rparr>" "posts d"] assms
    show "distinct (likes q)"
      by (auto simp: likes_distinct_def)
  qed
  with assms show ?thesis
    by (simp add: addComment_def Let_def likes_distinct_def split: sum.splits option.splits)
qed

lemma store_invariants_step: "store_invariants d \<Longrightarrow> store_invariants (step d r)"
proof (cases r)
  case (Register uname pw now)
  assume "store_invariants d"
  then show ?thesis
    by (simp add: Register store_invariants_def symmetric_register mirror_consistent_register
        placeholders_apart_register likes_distinct_frame [OF posts_untouched(1)])
next
  case (UpdateAvatar hdr img)
  assume "store_invariants d"
  then show ?thesis
    by (simp add: UpdateAvatar store_invariants_def symmetric_frame [OF graph_untouched(1)]
        mirror_consistent_frame [OF graph_untouched(2)] likes_distinct_frame [OF posts_untouched(2)]
        placeholders_apart_frame [OF messages_untouched(1)])
next
  case (CreatePost hdr body img now created)
  assume "store_invariants d"
  then show ?thesis
    by (simp add: CreatePost store_invariants_def symmetric_frame [OF graph_untouched(3)]
        mirror_consistent_frame [OF graph_untouched(4)] likes_distinct_createPost
        placeholders_apart_frame [OF messages_untouched(2)])
next
  case (ToggleLike hdr postId)
  assume "store_invariants d"
  then show ?thesis
    by (simp add: ToggleLike store_invariants_def symmetric_frame [OF graph_untouched(5)]
        mirror_consistent_frame [OF graph_untouched(6)] likes_distinct_toggleLike
        placeholders_apart_frame [OF messages_untouched(3)])
next
  case (AddComment hdr postId body now isoTime)
  assume "store_invariants d"
  then show ?thesis
    by (simp add: AddComment store_invariants_def symmetric_frame [OF graph_untouched(7)]
        mirror_consistent_frame [OF graph_untouched(8)] likes_distinct_addComment
        placeholders_apart_frame [OF messages_untouched(4)])
next
  case (SendRequest hdr toUserId)
  assume "store_invariants d"
  then show ?thesis
    by (simp add: SendRequest store_invariants_def symmetric_sendRequest
        mirror_consistent_sendRequest likes_distinct_frame [OF posts_untouched(3)]
        placeholders_apart_frame [OF messages_untouched(5)])
next
  case (AcceptRequest hdr fromUserId)
  assume "store_invariants d"
  then show ?thesis
    by (simp add: AcceptRequest store_invariants_def symmetric_acceptRequest
        mirror_consistent_acceptRequest likes_distinct_frame [OF posts_untouched(4)]
        placeholders_apart_frame [OF messages_untouched(6)])
next
  case (DeclineRequest hdr fromUserId)
  assume "store_invariants d"
  then show ?thesis
    by (simp add: DeclineRequest store_invariants_def symmetric_declineRequest
        mirror_consistent_declineRequest likes_distinct_frame [OF posts_untouched(5)]
        placeholders_apart_frame [OF messages_untouched(7)])
next
  case (SendTextMessage hdr friendId body now isoTime)
  assume "store_invariants d"
  then show ?thesis
    by (simp add: SendTextMessage store_invariants_def symmetric_frame [OF graph_untouched(9)]
        mirror_consistent_frame [OF graph_untouched(10)] likes_distinct_frame [OF posts_untouched(6)]
        placeholders_apart_sendTextMessage)
next
  case (SendVoiceMessage hdr friendId body now isoTime)
  assume "store_invariants d"
  then show ?thesis
    by (simp add: SendVoiceMessage store_invariants_def symmetric_frame [OF graph_untouched(11)]
        mirror_consistent_frame [OF graph_untouched(12)] likes_distinct_frame [OF posts_untouched(7)]
        placeholders_apart_sendVoiceMessage)
qed

lemma store_invariants_run: "store_invariants d \<Longrightarrow> store_invariants (run d rs)"
  by (induction rs arbitrary: d) (simp_all add: store_invariants_step)

lemma store_invariants_initialData: "store_invariants initialData"
  by (simp add: store_invariants_def symmetric_def mirror_consistent_def likes_distinct_def
      placeholders_apart_def friends_of_def sent_of_def received_of_def initialData_def)

lemma reachable_store_invariants: "reachable d \<Longrightarrow> store_invariants d"
  by (auto simp: reachable_def store_invariants_run store_invariants_initialData)

end
